theory Spec2Isabelle
  imports Main
begin

section \<open>JavaScript strings and values\<close>

text \<open>
  A JavaScript string is modelled as a \<open>string\<close>: one \<open>char\<close> per UTF-16 code unit,
  so \<open>length\<close>, \<open>take\<close> and \<open>drop\<close> count what \<open>.length\<close> and \<open>.slice\<close> count. Only code
  units below 256 are representable. The fixed Chinese texts of the source are written
  as their code points (\<open>U+XXXX\<close>); no property below depends on their content.
\<close>

definition digitChar :: "nat \<Rightarrow> char" where
  "digitChar d = ''0123456789'' ! d"

text \<open>
  The decimal digits of a natural number: what a template literal prints for
  \<open>Date.now()\<close>, an HTTP status or a length (integers far below \<open>10^21\<close>, from where on
  JavaScript switches to the exponent form).
\<close>

fun decimal :: "nat \<Rightarrow> string" where
  "decimal n = (if n < 10 then [digitChar n] else decimal (n div 10) @ [digitChar (n mod 10)])"

declare decimal.simps [simp del]

text \<open>
  \<open>String.prototype.trim\<close> strips WhiteSpace and LineTerminator code units from both
  ends; below 256 these are TAB, LF, VT, FF, CR, SPACE and NBSP.
\<close>

definition isWhiteSpace :: "char \<Rightarrow> bool" where
  "isWhiteSpace c = (c \<in> set [CHR 0x09, CHR 0x0A, CHR 0x0B, CHR 0x0C, CHR 0x0D, CHR 0x20, CHR 0xA0])"

definition trim :: "string \<Rightarrow> string" where
  "trim s = rev (dropWhile isWhiteSpace (rev (dropWhile isWhiteSpace s)))"

definition startsWith :: "string \<Rightarrow> string \<Rightarrow> bool" where
  "startsWith s p = (take (length p) s = p)"

text \<open>\<open>s.split('\n')\<close>: the pieces between line feeds; never empty.\<close>

fun splitLines :: "string \<Rightarrow> string list" where
  "splitLines [] = [[]]"
| "splitLines (c # cs) =
     (if c = CHR 0x0A then [] # splitLines cs
      else (case splitLines cs of [] \<Rightarrow> [[c]] | l # ls \<Rightarrow> (c # l) # ls))"

text \<open>
  A JavaScript number, represented by the two things the code observes of one:
  whether it is falsy (\<open>0\<close>, \<open>-0\<close> or \<open>NaN\<close>) and the string that converting it to
  a string gives (\<open>'1.5'\<close>, \<open>'1e+21'\<close>, \<open>'Infinity'\<close>, ...).
\<close>

datatype jsnum = JsNum (falsy: bool) (rendering: string)

text \<open>
  The number that a \<open>.length\<close> is: a natural number below \<open>2^53\<close>, which converts to
  its decimal digits.
\<close>

definition lengthNum :: "nat \<Rightarrow> jsnum" where
  "lengthNum n = JsNum (n = 0) (decimal n)"

text \<open>
  Values as the service sees them at run time: what \<open>JSON.parse\<close> returns, plus
  \<open>undefined\<close> for a missing property.
\<close>

datatype jsval =
    Undefined
  | Null
  | Bool bool
  | Num jsnum
  | Str string
  | Arr "jsval list"
  | Obj "(string \<times> jsval) list"

definition truthy :: "jsval \<Rightarrow> bool" where
  "truthy v =
     (case v of
        Undefined \<Rightarrow> False
      | Null \<Rightarrow> False
      | Bool b \<Rightarrow> b
      | Num n \<Rightarrow> \<not> falsy n
      | Str s \<Rightarrow> s \<noteq> []
      | Arr _ \<Rightarrow> True
      | Obj _ \<Rightarrow> True)"

definition nullish :: "jsval \<Rightarrow> bool" where
  "nullish v = (v = Undefined \<or> v = Null)"

text \<open>
  Property read \<open>v.k\<close> / \<open>v[0]\<close> for the keys the service reads (\<open>usage\<close>, \<open>choices\<close>,
  \<open>length\<close>, \<open>0\<close>, \<open>delta\<close>, \<open>reasoning_content\<close>, \<open>content\<close>). \<open>None\<close> is the TypeError
  raised on \<open>undefined\<close> and \<open>null\<close>.
\<close>

definition getProp :: "jsval \<Rightarrow> string \<Rightarrow> jsval option" where
  "getProp v k =
     (case v of
        Undefined \<Rightarrow> None
      | Null \<Rightarrow> None
      | Bool _ \<Rightarrow> Some Undefined
      | Num _ \<Rightarrow> Some Undefined
      | Str s \<Rightarrow>
          Some (if k = ''length'' then Num (lengthNum (length s))
                else if k = ''0'' then (case s of [] \<Rightarrow> Undefined | c # _ \<Rightarrow> Str [c])
                else Undefined)
      | Arr xs \<Rightarrow>
          Some (if k = ''length'' then Num (lengthNum (length xs))
                else if k = ''0'' then (case xs of [] \<Rightarrow> Undefined | x # _ \<Rightarrow> x)
                else Undefined)
      | Obj kvs \<Rightarrow> Some (case map_of kvs k of None \<Rightarrow> Undefined | Some x \<Rightarrow> x))"

fun joinComma :: "string list \<Rightarrow> string" where
  "joinComma [] = []"
| "joinComma [s] = s"
| "joinComma (s # t # ts) = s @ '','' @ joinComma (t # ts)"

text \<open>String conversion as performed by \<open>'' + v\<close>.\<close>

fun jsToString :: "jsval \<Rightarrow> string" where
  "jsToString Undefined = ''undefined''"
| "jsToString Null = ''null''"
| "jsToString (Bool b) = (if b then ''true'' else ''false'')"
| "jsToString (Num n) = rendering n"
| "jsToString (Str s) = s"
| "jsToString (Arr xs) = joinComma (map (\<lambda>x. if nullish x then [] else jsToString x) xs)"
| "jsToString (Obj kvs) = ''[object Object]''"

text \<open>
  What a \<open>throw\<close> or a rejected promise carries: an \<open>Error\<close> instance (its \<open>name\<close>
  and \<open>message\<close>) or any other value, for which \<open>instanceof Error\<close> is false.
\<close>

datatype JsError = JsError (err_name: string) (err_message: string)

datatype thrown = ThrownError JsError | ThrownValue string

section \<open>Data model (src/types/index.ts)\<close>

datatype MessageRole = User | Assistant

record Message =
  m_id :: string
  m_role :: MessageRole
  m_content :: string
  m_timestamp :: nat
  m_isStreaming :: "bool option"
  m_reasoningContent :: "string option"

text \<open>\<open>Omit<Message, 'id' | 'timestamp'>\<close>, the argument of \<open>addMessage\<close>.\<close>

record MessageInput =
  i_role :: MessageRole
  i_content :: string
  i_isStreaming :: "bool option"
  i_reasoningContent :: "string option"

record Conversation =
  c_id :: string
  c_title :: string
  c_messages :: "Message list"
  c_createdAt :: nat
  c_updatedAt :: nat

section \<open>The chat store (stores/chat.ts)\<close>

text \<open>
  What \<open>localStorage.getItem('conversations')\<close> can hold: nothing (or the empty
  string), a string \<open>JSON.parse\<close> rejects, or a serialised conversation array.
\<close>

datatype StoredConversations = NoItem | Malformed | Serialized "Conversation list"

datatype StoreLog = ApiResponseError JsError | SendFailed thrown | LoadFailed

text \<open>
  The reactive state of the store together with the ambient runtime it reads and
  writes: \<open>localStorage\<close> (two keys, and the number of \<open>setItem\<close> calls so far),
  \<open>Date.now()\<close> and \<open>Math.random().toString(36).substring(2, 11)\<close> as oracles indexed
  by the number of calls made so far, and the \<open>console.error\<close> output.
\<close>

record ChatStore =
  conversations :: "Conversation list"
  activeConversationId :: "string option"
  isLoading :: bool
  isStreaming :: bool
  storedConversations :: StoredConversations
  storedActiveId :: "string option"
  setItemCalls :: nat
  dateNow :: "nat \<Rightarrow> nat"
  ticks :: nat
  mathRandom :: "nat \<Rightarrow> string"
  draws :: nat
  errorLog :: "StoreLog list"

definition default_title :: string where
  "default_title = ''U+65B0 U+5BF9 U+8BDD''"

definition now :: "ChatStore \<Rightarrow> nat \<times> ChatStore" where
  "now st = (dateNow st (ticks st), st\<lparr>ticks := ticks st + 1\<rparr>)"

definition generateId :: "ChatStore \<Rightarrow> string \<times> ChatStore" where
  "generateId st =
     (let (t, st1) = now st
      in (decimal t @ ''-'' @ mathRandom st1 (draws st1), st1\<lparr>draws := draws st1 + 1\<rparr>))"

definition activeConversation :: "ChatStore \<Rightarrow> Conversation option" where
  "activeConversation st =
     find (\<lambda>c. Some (c_id c) = activeConversationId st) (conversations st)"

definition saveConversations :: "ChatStore \<Rightarrow> ChatStore" where
  "saveConversations st =
     st\<lparr>storedConversations := Serialized (conversations st),
        storedActiveId := Some (case activeConversationId st of None \<Rightarrow> [] | Some i \<Rightarrow> i),
        setItemCalls := setItemCalls st + 2\<rparr>"

definition createConversation :: "ChatStore \<Rightarrow> Conversation \<times> ChatStore" where
  "createConversation st =
     (let (newId, st1) = generateId st;
          (created, st2) = now st1;
          (updated, st3) = now st2;
          newConversation = \<lparr>c_id = newId, c_title = default_title, c_messages = [],
                             c_createdAt = created, c_updatedAt = updated\<rparr>;
          st4 = st3\<lparr>conversations := newConversation # conversations st3\<rparr>;
          st5 = st4\<lparr>activeConversationId := Some newId\<rparr>
      in (newConversation, saveConversations st5))"

fun findIndex :: "('a \<Rightarrow> bool) \<Rightarrow> 'a list \<Rightarrow> nat option" where
  "findIndex P [] = None"
| "findIndex P (x # xs) = (if P x then Some 0 else map_option Suc (findIndex P xs))"

text \<open>\<open>xs.splice(index, 1)\<close>.\<close>

definition splice1 :: "nat \<Rightarrow> 'a list \<Rightarrow> 'a list" where
  "splice1 index xs = take index xs @ drop (Suc index) xs"

text \<open>\<open>conversations.value[0]?.id || null\<close>: the empty string is falsy.\<close>

definition firstIdOrNull :: "Conversation list \<Rightarrow> string option" where
  "firstIdOrNull cs =
     (case cs of [] \<Rightarrow> None | c # _ \<Rightarrow> if c_id c = [] then None else Some (c_id c))"

definition deleteConversation :: "string \<Rightarrow> ChatStore \<Rightarrow> ChatStore" where
  "deleteConversation i st =
     (case findIndex (\<lambda>c. c_id c = i) (conversations st) of
        None \<Rightarrow> st
      | Some index \<Rightarrow>
          (let st1 = st\<lparr>conversations := splice1 index (conversations st)\<rparr>;
               st2 = (if activeConversationId st1 = Some i then
                        (if length (conversations st1) > 0
                         then st1\<lparr>activeConversationId := firstIdOrNull (conversations st1)\<rparr>
                         else snd (createConversation st1))
                      else st1)
           in saveConversations st2))"

definition switchConversation :: "string \<Rightarrow> ChatStore \<Rightarrow> ChatStore" where
  "switchConversation i st = st\<lparr>activeConversationId := Some i\<rparr>"

text \<open>
  \<open>find\<close> returns a reference to the first matching element and the code mutates it
  in place: the list with its first match replaced.
\<close>

fun updateFirst :: "('a \<Rightarrow> bool) \<Rightarrow> ('a \<Rightarrow> 'a) \<Rightarrow> 'a list \<Rightarrow> 'a list" where
  "updateFirst P f [] = []"
| "updateFirst P f (x # xs) = (if P x then f x # xs else x # updateFirst P f xs)"

definition deriveTitle :: "string \<Rightarrow> string" where
  "deriveTitle content = take 20 content @ (if length content > 20 then ''...'' else [])"

definition pushMessage :: "MessageInput \<Rightarrow> Message \<Rightarrow> nat \<Rightarrow> Conversation \<Rightarrow> Conversation" where
  "pushMessage message newMessage t c =
     (let c1 = c\<lparr>c_messages := c_messages c @ [newMessage]\<rparr>;
          c2 = c1\<lparr>c_updatedAt := t\<rparr>
      in if length (c_messages c2) = 1 \<and> i_role message = User
         then c2\<lparr>c_title := deriveTitle (i_content message)\<rparr>
         else c2)"

definition addMessage :: "string \<Rightarrow> MessageInput \<Rightarrow> ChatStore \<Rightarrow> Message option \<times> ChatStore" where
  "addMessage conversationId message st =
     (case find (\<lambda>c. c_id c = conversationId) (conversations st) of
        None \<Rightarrow> (None, st)
      | Some _ \<Rightarrow>
          (let (newId, st1) = generateId st;
               (stamp, st2) = now st1;
               newMessage = \<lparr>m_id = newId, m_role = i_role message, m_content = i_content message,
                             m_timestamp = stamp, m_isStreaming = i_isStreaming message,
                             m_reasoningContent = i_reasoningContent message\<rparr>;
               (updated, st3) = now st2;
               st4 = st3\<lparr>conversations :=
                       updateFirst (\<lambda>c. c_id c = conversationId)
                         (pushMessage message newMessage updated) (conversations st3)\<rparr>
           in (Some newMessage, saveConversations st4)))"

text \<open>
  The shared shape of \<open>updateMessage\<close> and \<open>updateReasoningContent\<close>: look the
  conversation up, then the message, mutate it, refresh \<open>updatedAt\<close>, persist.
\<close>

definition mutateMessage :: "string \<Rightarrow> string \<Rightarrow> (Message \<Rightarrow> Message) \<Rightarrow> ChatStore \<Rightarrow> ChatStore" where
  "mutateMessage conversationId messageId f st =
     (case find (\<lambda>c. c_id c = conversationId) (conversations st) of
        None \<Rightarrow> st
      | Some conversation \<Rightarrow>
          (case find (\<lambda>m. m_id m = messageId) (c_messages conversation) of
             None \<Rightarrow> st
           | Some _ \<Rightarrow>
               (let (updated, st1) = now st;
                    st2 = st1\<lparr>conversations :=
                            updateFirst (\<lambda>c. c_id c = conversationId)
                              (\<lambda>c. c\<lparr>c_messages := updateFirst (\<lambda>m. m_id m = messageId) f (c_messages c),
                                      c_updatedAt := updated\<rparr>)
                              (conversations st1)\<rparr>
                in saveConversations st2)))"

definition updateMessage :: "string \<Rightarrow> string \<Rightarrow> string \<Rightarrow> ChatStore \<Rightarrow> ChatStore" where
  "updateMessage conversationId messageId content st =
     mutateMessage conversationId messageId (\<lambda>m. m\<lparr>m_content := content\<rparr>) st"

definition updateReasoningContent :: "string \<Rightarrow> string \<Rightarrow> string \<Rightarrow> ChatStore \<Rightarrow> ChatStore" where
  "updateReasoningContent conversationId messageId reasoningContent st =
     mutateMessage conversationId messageId (\<lambda>m. m\<lparr>m_reasoningContent := Some reasoningContent\<rparr>) st"

text \<open>
  \<open>loadConversations\<close>. The persisted array is taken at its declared type
  \<open>Conversation[]\<close>; a stored active id that is empty is falsy.
\<close>

definition loadConversations :: "ChatStore \<Rightarrow> ChatStore" where
  "loadConversations st =
     (let st1 = (case storedConversations st of
                   NoItem \<Rightarrow> st
                 | Malformed \<Rightarrow> st\<lparr>errorLog := errorLog st @ [LoadFailed]\<rparr>
                 | Serialized cs \<Rightarrow> st\<lparr>conversations := cs\<rparr>);
          restorable = (case storedActiveId st1 of
                          None \<Rightarrow> False
                        | Some i \<Rightarrow> i \<noteq> [] \<and> find (\<lambda>c. c_id c = i) (conversations st1) \<noteq> None)
      in if restorable then st1\<lparr>activeConversationId := storedActiveId st1\<rparr>
         else if length (conversations st1) > 0
         then st1\<lparr>activeConversationId := firstIdOrNull (conversations st1)\<rparr>
         else snd (createConversation st1))"

section \<open>The streaming service (api/services/DashScopeService.ts)\<close>

text \<open>
  A callback runs on the caller's state \<open>'s\<close> and may throw: it returns the state it
  leaves behind and the exception, if any. Every callback of
  \<open>ExtendedStreamCallbacks\<close> is optional (\<open>callbacks.onChunk?.(...)\<close>).
\<close>

type_synonym ('a, 's) callback = "'a \<Rightarrow> 's \<Rightarrow> 's \<times> thrown option"

record 's ExtendedStreamCallbacks =
  onChunk :: "(jsval, 's) callback option"
  onComplete :: "(unit, 's) callback option"
  onError :: "(JsError, 's) callback option"
  onReasoningChunk :: "(jsval, 's) callback option"

datatype ConsoleEntry =
    TimeoutWarning
  | TokenUsage jsval
  | AnsweringStarted
  | SseParseFailure string
  | RequestAborted
  | ApiFailure JsError

text \<open>
  The locals of one \<open>sendStreamMessage\<close> call (\<open>buffer\<close>, \<open>isAnswering\<close>), the console
  output it produced, the request it sent, and the caller's state.
\<close>

record 's Session =
  buffer :: string
  isAnswering :: bool
  console :: "ConsoleEntry list"
  request :: "(MessageRole \<times> string) list"
  client :: 's

definition invoke :: "('a, 's) callback option \<Rightarrow> 'a \<Rightarrow> 's Session \<Rightarrow> thrown option \<times> 's Session" where
  "invoke cb x st =
     (case cb of
        None \<Rightarrow> (None, st)
      | Some f \<Rightarrow> (let (s', e) = f x (client st) in (e, st\<lparr>client := s'\<rparr>)))"

text \<open>\<open>parsed.choices?.length\<close>.\<close>

definition optionalLength :: "jsval \<Rightarrow> jsval" where
  "optionalLength v =
     (if nullish v then Undefined
      else (case getProp v ''length'' of None \<Rightarrow> Undefined | Some n \<Rightarrow> n))"

text \<open>
  The body of the inner \<open>try\<close> (lines 177 to 211), \<open>JSON.parse\<close> being the parameter
  \<open>parse\<close> (\<open>None\<close> is its SyntaxError). The flag returned says whether an exception
  reached the \<open>catch\<close>: the SyntaxError, a TypeError of a property read, or whatever a
  callback threw.
\<close>

definition routeFrame ::
  "(string \<Rightarrow> jsval option) \<Rightarrow> 's ExtendedStreamCallbacks \<Rightarrow> string \<Rightarrow> 's Session \<Rightarrow> bool \<times> 's Session" where
  "routeFrame parse callbacks data st =
     (case parse data of
        None \<Rightarrow> (True, st)
      | Some parsed \<Rightarrow>
     (case getProp parsed ''usage'' of
        None \<Rightarrow> (True, st)
      | Some usage \<Rightarrow>
     if truthy usage then (False, st\<lparr>console := console st @ [TokenUsage usage]\<rparr>)
     else
     (case getProp parsed ''choices'' of
        None \<Rightarrow> (True, st)
      | Some choices \<Rightarrow>
     if \<not> truthy (optionalLength choices) then (False, st)
     else
     (case getProp choices ''0'' of
        None \<Rightarrow> (True, st)
      | Some choice \<Rightarrow>
     (case getProp choice ''delta'' of
        None \<Rightarrow> (True, st)
      | Some delta \<Rightarrow>
     (case getProp delta ''reasoning_content'' of
        None \<Rightarrow> (True, st)
      | Some reasoning \<Rightarrow>
     (let (e1, st1) = (if \<not> nullish reasoning \<and> \<not> isAnswering st
                       then invoke (onReasoningChunk callbacks) reasoning st
                       else (None, st))
      in if e1 \<noteq> None then (True, st1)
         else
     (case getProp delta ''content'' of
        None \<Rightarrow> (True, st1)
      | Some content \<Rightarrow>
     if content \<noteq> Undefined \<and> truthy content then
       (let st2 = (if \<not> isAnswering st1
                   then st1\<lparr>console := console st1 @ [AnsweringStarted], isAnswering := True\<rparr>
                   else st1);
            (e2, st3) = invoke (onChunk callbacks) content st2
        in (e2 \<noteq> None, st3))
     else (False, st1)))))))))"

definition processLine ::
  "(string \<Rightarrow> jsval option) \<Rightarrow> 's ExtendedStreamCallbacks \<Rightarrow> string \<Rightarrow> 's Session \<Rightarrow> 's Session" where
  "processLine parse callbacks line st =
     (let trimmedLine = trim line
      in if trimmedLine = [] \<or> startsWith trimmedLine '':'' then st
         else if startsWith trimmedLine ''data: '' then
           (let data = trim (drop 6 trimmedLine)
            in if data = ''[DONE]'' then st
               else (let (threw, st1) = routeFrame parse callbacks data st
                     in if threw then st1\<lparr>console := console st1 @ [SseParseFailure data]\<rparr>
                        else st1))
         else st)"

fun processLines ::
  "(string \<Rightarrow> jsval option) \<Rightarrow> 's ExtendedStreamCallbacks \<Rightarrow> string list \<Rightarrow> 's Session \<Rightarrow> 's Session" where
  "processLines parse callbacks [] st = st"
| "processLines parse callbacks (line # lines) st =
     processLines parse callbacks lines (processLine parse callbacks line st)"

text \<open>
  The response body as the reader delivers it: each \<open>reader.read()\<close> settles after a
  wait (in ms) with a chunk of text (the bytes as \<open>TextDecoder\<close> decodes them) or with a
  rejection; when the list is used up the reader reports \<open>done\<close>. The \<open>while (true)\<close>
  loop of the source ends when the body does; a body that never ends or stalls for
  ever is not represented (the call then never settles).
\<close>

datatype ReadOutcome = Chunk string | ReadError thrown

fun readLoop ::
  "(string \<Rightarrow> jsval option) \<Rightarrow> 's ExtendedStreamCallbacks \<Rightarrow> (nat \<times> ReadOutcome) list \<Rightarrow>
     's Session \<Rightarrow> thrown option \<times> 's Session" where
  "readLoop parse callbacks [] st = invoke (onComplete callbacks) () st"
| "readLoop parse callbacks ((wait, ReadError e) # rest) st = (Some e, st)"
| "readLoop parse callbacks ((wait, Chunk text) # rest) st =
     (let lines = splitLines (buffer st @ text);
          st1 = st\<lparr>buffer := last lines\<rparr>
      in readLoop parse callbacks rest (processLines parse callbacks (butlast lines) st1))"

record Response =
  status :: nat
  bodyText :: "thrown + string"
  body :: "(nat \<times> ReadOutcome) list option"

text \<open>\<open>response.ok\<close>: the status is in the range 200 to 299.\<close>

definition ok :: "Response \<Rightarrow> bool" where
  "ok response = (200 \<le> status response \<and> status response \<le> 299)"

text \<open>
  The network's part of one call: when \<open>fetch\<close> would settle (ms after the call) and
  with what.
\<close>

record Network =
  fetchLatency :: nat
  fetchResult :: "thrown + Response"

definition timeoutMs :: nat where
  "timeoutMs = 60000"

definition timeout_message :: string where
  "timeout_message = ''U+8BF7 U+6C42 U+8D85 U+65F6''"

definition empty_body_message :: string where
  "empty_body_message = ''U+54CD U+5E94 U+4F53 U+4E3A U+7A7A''"

definition abortError :: thrown where
  "abortError = ThrownError (JsError ''AbortError'' ''signal is aborted without reason'')"

definition formatMessages :: "Message list \<Rightarrow> (MessageRole \<times> string) list" where
  "formatMessages messages =
     map (\<lambda>msg. (if m_role msg = User then User else Assistant, m_content msg)) messages"

text \<open>The outer \<open>catch\<close> (lines 218 to 232).\<close>

definition handleFailure ::
  "'s ExtendedStreamCallbacks \<Rightarrow> thrown \<Rightarrow> 's Session \<Rightarrow> thrown option \<times> 's Session" where
  "handleFailure callbacks error st =
     (case error of
        ThrownValue _ \<Rightarrow> (None, st)
      | ThrownError e \<Rightarrow>
          if err_name e = ''AbortError''
          then invoke (onError callbacks) (JsError ''Error'' timeout_message)
                 (st\<lparr>console := console st @ [RequestAborted]\<rparr>)
          else invoke (onError callbacks) e (st\<lparr>console := console st @ [ApiFailure e]\<rparr>))"

text \<open>
  \<open>sendStreamMessage\<close>. The timer armed at the start fires when \<open>fetch\<close> has not settled
  before \<open>timeoutMs\<close>: it aborts the request, which makes \<open>fetch\<close> reject with an
  AbortError. Once \<open>fetch\<close> has resolved the timer is cleared (line 124). The result
  is the rejection of the returned promise, if any, and the final session.
\<close>

definition sendStreamMessage ::
  "(string \<Rightarrow> jsval option) \<Rightarrow> Message list \<Rightarrow> 's ExtendedStreamCallbacks \<Rightarrow> Network \<Rightarrow> 's \<Rightarrow>
     thrown option \<times> 's Session" where
  "sendStreamMessage parse messages callbacks net s =
     (let st = \<lparr>buffer = [], isAnswering = False, console = [],
                request = formatMessages messages, client = s\<rparr>
      in if timeoutMs \<le> fetchLatency net
         then handleFailure callbacks abortError (st\<lparr>console := [TimeoutWarning]\<rparr>)
         else
           (case fetchResult net of
              Inl e \<Rightarrow> handleFailure callbacks e st
            | Inr response \<Rightarrow>
                if \<not> ok response then
                  (case bodyText response of
                     Inl e \<Rightarrow> handleFailure callbacks e st
                   | Inr errorText \<Rightarrow>
                       handleFailure callbacks
                         (ThrownError (JsError ''Error''
                            (''HTTP '' @ decimal (status response) @ '': '' @ errorText))) st)
                else
                  (case body response of
                     None \<Rightarrow>
                       handleFailure callbacks (ThrownError (JsError ''Error'' empty_body_message)) st
                   | Some reads \<Rightarrow>
                       (case readLoop parse callbacks reads st of
                          (None, st1) \<Rightarrow> (None, st1)
                        | (Some e, st1) \<Rightarrow> handleFailure callbacks e st1))))"

text \<open>Callbacks that only record their invocations, in order, and return normally.\<close>

datatype Event = ReasoningChunk jsval | ContentChunk jsval | Complete | Failed JsError

definition recorder :: "Event list ExtendedStreamCallbacks" where
  "recorder =
     \<lparr>onChunk = Some (\<lambda>chunk tr. (tr @ [ContentChunk chunk], None)),
      onComplete = Some (\<lambda>_ tr. (tr @ [Complete], None)),
      onError = Some (\<lambda>error tr. (tr @ [Failed error], None)),
      onReasoningChunk = Some (\<lambda>chunk tr. (tr @ [ReasoningChunk chunk], None))\<rparr>"

definition trace :: "(string \<Rightarrow> jsval option) \<Rightarrow> Message list \<Rightarrow> Network \<Rightarrow> Event list" where
  "trace parse messages net = client (snd (sendStreamMessage parse messages recorder net []))"

section \<open>Orchestration: sendMessage (stores/chat.ts)\<close>

definition diagnostic :: "string \<Rightarrow> string" where
  "diagnostic msg =
     ''U+62B1 U+6B49 U+FF0C U+51FA U+73B0 U+4E86 U+9519 U+8BEF U+FF1A '' @ msg @
     [CHR 0x0A] @ [CHR 0x0A] @ ''U+8BF7 U+68C0 U+67E5 U+FF1A '' @ [CHR 0x0A] @
     ''1. API Key U+662F U+5426 U+6B63 U+786E U+914D U+7F6E '' @ [CHR 0x0A] @
     ''2. U+7F51 U+7EDC U+8FDE U+63A5 U+662F U+5426 U+6B63 U+5E38 '' @ [CHR 0x0A] @
     ''3. U+67E5 U+770B U+63A7 U+5236 U+53F0 U+4E86 U+89E3 U+8BE6 U+7EC6 U+9519 U+8BEF U+4FE1 U+606F ''"

text \<open>
  The callbacks close over the conversation object and the id of the placeholder
  message. Nothing in \<open>sendMessage\<close> removes or reorders conversations, so that
  object is the first conversation of the store with its id, and
  \<open>conversation.messages.find(m => m.id === aiMessage.id)\<close> is the lookup below.
\<close>

definition findMessage :: "string \<Rightarrow> string \<Rightarrow> ChatStore \<Rightarrow> Message option" where
  "findMessage conversationId messageId st =
     (case find (\<lambda>c. c_id c = conversationId) (conversations st) of
        None \<Rightarrow> None
      | Some conversation \<Rightarrow> find (\<lambda>m. m_id m = messageId) (c_messages conversation))"

text \<open>A direct assignment to fields of the message found (no \<open>updatedAt\<close>, no persisting).\<close>

definition patchMessage :: "string \<Rightarrow> string \<Rightarrow> (Message \<Rightarrow> Message) \<Rightarrow> ChatStore \<Rightarrow> ChatStore" where
  "patchMessage conversationId messageId f st =
     st\<lparr>conversations :=
          updateFirst (\<lambda>c. c_id c = conversationId)
            (\<lambda>c. c\<lparr>c_messages := updateFirst (\<lambda>m. m_id m = messageId) f (c_messages c)\<rparr>)
            (conversations st)\<rparr>"

definition onReasoningChunkHandler :: "string \<Rightarrow> string \<Rightarrow> jsval \<Rightarrow> ChatStore \<Rightarrow> ChatStore" where
  "onReasoningChunkHandler conversationId aiId chunk st =
     (case findMessage conversationId aiId st of
        None \<Rightarrow> st
      | Some currentMessage \<Rightarrow>
          (let newReasoningContent =
                 (case m_reasoningContent currentMessage of None \<Rightarrow> [] | Some r \<Rightarrow> r) @ jsToString chunk
           in updateReasoningContent conversationId aiId newReasoningContent st))"

definition onChunkHandler :: "string \<Rightarrow> string \<Rightarrow> jsval \<Rightarrow> ChatStore \<Rightarrow> ChatStore" where
  "onChunkHandler conversationId aiId chunk st =
     (case findMessage conversationId aiId st of
        None \<Rightarrow> st
      | Some currentMessage \<Rightarrow>
          (let newContent = m_content currentMessage @ jsToString chunk
           in updateMessage conversationId aiId newContent st))"

definition onCompleteHandler :: "string \<Rightarrow> string \<Rightarrow> ChatStore \<Rightarrow> ChatStore" where
  "onCompleteHandler conversationId aiId st =
     (patchMessage conversationId aiId (\<lambda>m. m\<lparr>m_isStreaming := Some False\<rparr>) st)
       \<lparr>isLoading := False, isStreaming := False\<rparr>"

definition onErrorHandler :: "string \<Rightarrow> string \<Rightarrow> JsError \<Rightarrow> ChatStore \<Rightarrow> ChatStore" where
  "onErrorHandler conversationId aiId error st =
     (let st1 = st\<lparr>errorLog := errorLog st @ [ApiResponseError error],
                   isLoading := False, isStreaming := False\<rparr>
      in patchMessage conversationId aiId
           (\<lambda>m. m\<lparr>m_content := diagnostic (err_message error), m_isStreaming := Some False\<rparr>) st1)"

definition storeCallbacks :: "string \<Rightarrow> string \<Rightarrow> ChatStore ExtendedStreamCallbacks" where
  "storeCallbacks conversationId aiId =
     \<lparr>onChunk = Some (\<lambda>chunk st. (onChunkHandler conversationId aiId chunk st, None)),
      onComplete = Some (\<lambda>_ st. (onCompleteHandler conversationId aiId st, None)),
      onError = Some (\<lambda>error st. (onErrorHandler conversationId aiId error st, None)),
      onReasoningChunk = Some (\<lambda>chunk st. (onReasoningChunkHandler conversationId aiId chunk st, None))\<rparr>"

text \<open>The \<open>catch\<close> of \<open>sendMessage\<close> (lines 325 to 329).\<close>

definition sendFailed :: "thrown \<Rightarrow> ChatStore \<Rightarrow> ChatStore" where
  "sendFailed error st =
     st\<lparr>errorLog := errorLog st @ [SendFailed error], isLoading := False, isStreaming := False\<rparr>"

text \<open>\<open>xs.slice(-10)\<close>.\<close>

definition lastTen :: "'a list \<Rightarrow> 'a list" where
  "lastTen xs = drop (length xs - 10) xs"

text \<open>
  Steps 1 to 4 of \<open>sendMessage\<close>, before the \<open>try\<close>: the active conversation (created
  when there is none), the user message, the two flags. \<open>None\<close> is the early return
  on blank input.
\<close>

definition sendMessageBegin :: "string \<Rightarrow> ChatStore \<Rightarrow> (string \<times> ChatStore) option" where
  "sendMessageBegin content st =
     (if trim content = [] then None
      else
        (let (conversation, st1) =
               (case activeConversation st of
                  Some c \<Rightarrow> (c, st)
                | None \<Rightarrow> createConversation st);
             (_, st2) = addMessage (c_id conversation)
                          \<lparr>i_role = User, i_content = trim content,
                           i_isStreaming = None, i_reasoningContent = None\<rparr> st1;
             st3 = st2\<lparr>isLoading := True\<rparr>;
             st4 = st3\<lparr>isStreaming := True\<rparr>
         in Some (c_id conversation, st4)))"

text \<open>
  \<open>sendMessage\<close>. Besides the text typed by the user it depends on the outcome of the
  dynamic \<open>import\<close> of the service (\<open>Some e\<close>: it rejects with \<open>e\<close>) and on the network.
\<close>

definition sendMessage ::
  "(string \<Rightarrow> jsval option) \<Rightarrow> thrown option \<Rightarrow> Network \<Rightarrow> string \<Rightarrow> ChatStore \<Rightarrow> ChatStore" where
  "sendMessage parse importRejection net content st =
     (case sendMessageBegin content st of
        None \<Rightarrow> st
      | Some (conversationId, st4) \<Rightarrow>
          (let (aiMessage, st5) = addMessage conversationId
                                    \<lparr>i_role = Assistant, i_content = [],
                                     i_isStreaming = Some True, i_reasoningContent = None\<rparr> st4
           in case aiMessage of
                None \<Rightarrow> st5
              | Some ai \<Rightarrow>
                  (case importRejection of
                     Some e \<Rightarrow> sendFailed e st5
                   | None \<Rightarrow>
                       (let recentMessages =
                              lastTen (case find (\<lambda>c. c_id c = conversationId) (conversations st5) of
                                         None \<Rightarrow> []
                                       | Some conversation \<Rightarrow> c_messages conversation);
                            (rejection, session) =
                              sendStreamMessage parse recentMessages
                                (storeCallbacks conversationId (m_id ai)) net st5
                        in case rejection of
                             None \<Rightarrow> client session
                           | Some e \<Rightarrow> sendFailed e (client session)))))"

section \<open>Observations on a call of the service\<close>

fun isContentChunk :: "Event \<Rightarrow> bool" where
  "isContentChunk (ContentChunk _) = True"
| "isContentChunk _ = False"

fun isReasoningChunk :: "Event \<Rightarrow> bool" where
  "isReasoningChunk (ReasoningChunk _) = True"
| "isReasoningChunk _ = False"

fun isTerminal :: "Event \<Rightarrow> bool" where
  "isTerminal Complete = True"
| "isTerminal (Failed _) = True"
| "isTerminal _ = False"

text \<open>No invocation of \<open>onReasoningChunk\<close> comes after an invocation of \<open>onChunk\<close>.\<close>

fun noReasoningAfterContent :: "Event list \<Rightarrow> bool" where
  "noReasoningAfterContent [] = True"
| "noReasoningAfterContent (e # es) =
     ((isContentChunk e \<longrightarrow> \<not> list_ex isReasoningChunk es) \<and> noReasoningAfterContent es)"

text \<open>
  The exception, if any, that the network makes reach the outer \<open>catch\<close> of
  \<open>sendStreamMessage\<close>: the abort by the timer, a rejected \<open>fetch\<close>, a status outside
  200 to 299 (or the failing read of its text), a missing body, or the first rejected
  read.
\<close>

fun firstReadError :: "(nat \<times> ReadOutcome) list \<Rightarrow> thrown option" where
  "firstReadError [] = None"
| "firstReadError ((wait, ReadError e) # rest) = Some e"
| "firstReadError ((wait, Chunk text) # rest) = firstReadError rest"

definition failure :: "Network \<Rightarrow> thrown option" where
  "failure net =
     (if timeoutMs \<le> fetchLatency net then Some abortError
      else
        (case fetchResult net of
           Inl e \<Rightarrow> Some e
         | Inr response \<Rightarrow>
             if \<not> ok response then
               (case bodyText response of
                  Inl e \<Rightarrow> Some e
                | Inr errorText \<Rightarrow>
                    Some (ThrownError (JsError ''Error''
                            (''HTTP '' @ decimal (status response) @ '': '' @ errorText))))
             else
               (case body response of
                  None \<Rightarrow> Some (ThrownError (JsError ''Error'' empty_body_message))
                | Some reads \<Rightarrow> firstReadError reads)))"

text \<open>
  How long the transfer is in flight: the wait for \<open>fetch\<close> plus the waits of the
  reads of the body.
\<close>

definition transferDuration :: "Network \<Rightarrow> nat" where
  "transferDuration net =
     fetchLatency net +
     (case fetchResult net of
        Inl _ \<Rightarrow> 0
      | Inr response \<Rightarrow>
          (case body response of None \<Rightarrow> 0 | Some reads \<Rightarrow> sum_list (map fst reads)))"

text \<open>The same network with the wait of every read replaced.\<close>

definition retime :: "(nat \<Rightarrow> nat) \<Rightarrow> Network \<Rightarrow> Network" where
  "retime f net =
     net\<lparr>fetchResult :=
          (case fetchResult net of
             Inl e \<Rightarrow> Inl e
           | Inr response \<Rightarrow>
               Inr (response\<lparr>body := map_option (map (\<lambda>(wait, r). (f wait, r))) (body response)\<rparr>))\<rparr>"

text \<open>
  The recording callbacks again, each of them throwing or returning normally as an
  oracle decides from the invocations recorded so far (the one being made included).
\<close>

definition recorderWith :: "(Event list \<Rightarrow> thrown option) \<Rightarrow> Event list ExtendedStreamCallbacks" where
  "recorderWith decide =
     \<lparr>onChunk = Some (\<lambda>chunk tr. (tr @ [ContentChunk chunk], decide (tr @ [ContentChunk chunk]))),
      onComplete = Some (\<lambda>_ tr. (tr @ [Complete], decide (tr @ [Complete]))),
      onError = Some (\<lambda>error tr. (tr @ [Failed error], decide (tr @ [Failed error]))),
      onReasoningChunk =
        Some (\<lambda>chunk tr. (tr @ [ReasoningChunk chunk], decide (tr @ [ReasoningChunk chunk])))\<rparr>"

text \<open>
  The invariant behind the latch, on a session run with recording callbacks:
  the recorded invocations are latched, and as long as \<open>isAnswering\<close> is false no
  content chunk has been routed.
\<close>

definition latchInv :: "Event list Session \<Rightarrow> bool" where
  "latchInv st =
     (noReasoningAfterContent (client st)
      \<and> (\<not> isAnswering st \<longrightarrow> \<not> list_ex isContentChunk (client st)))"

text \<open>
  The terminal callback that answers a failure (or its absence): \<open>onComplete\<close> when
  nothing failed, \<open>onError\<close> for an \<open>Error\<close> instance (the timeout error for an
  AbortError), nothing for any other thrown value.
\<close>

definition expectedTerminal :: "thrown option \<Rightarrow> Event list" where
  "expectedTerminal f =
     (case f of
        None \<Rightarrow> [Complete]
      | Some (ThrownError e) \<Rightarrow>
          [Failed (if err_name e = ''AbortError'' then JsError ''Error'' timeout_message else e)]
      | Some (ThrownValue _) \<Rightarrow> [])"

section \<open>Observations on the store\<close>

text \<open>
  The invariant of the data model: a user message has no \<open>reasoningContent\<close> and is
  not streaming.
\<close>

definition messageOk :: "Message \<Rightarrow> bool" where
  "messageOk m = (m_role m = User \<longrightarrow> m_reasoningContent m = None \<and> m_isStreaming m \<noteq> Some True)"

definition conversationsOk :: "Conversation list \<Rightarrow> bool" where
  "conversationsOk cs = list_all (\<lambda>c. list_all messageOk (c_messages c)) cs"

definition roleInvariant :: "ChatStore \<Rightarrow> bool" where
  "roleInvariant st = conversationsOk (conversations st)"

definition inputOk :: "MessageInput \<Rightarrow> bool" where
  "inputOk message =
     (i_role message = User \<longrightarrow> i_reasoningContent message = None \<and> i_isStreaming message \<noteq> Some True)"

text \<open>
  The id generated for the placeholder of \<open>sendMessage\<close> is not the id of a message
  already in the conversation.
\<close>

definition placeholderFresh :: "string \<Rightarrow> ChatStore \<Rightarrow> bool" where
  "placeholderFresh content st =
     (case sendMessageBegin content st of
        None \<Rightarrow> True
      | Some (conversationId, st4) \<Rightarrow>
          (case find (\<lambda>c. c_id c = conversationId) (conversations st4) of
             None \<Rightarrow> True
           | Some conversation \<Rightarrow>
               fst (generateId st4) \<notin> set (map m_id (c_messages conversation))))"

text \<open>
  Handing a recorded invocation to the callbacks it was made on: the callback for the
  event runs on the caller's state (an absent callback leaves it as it is).
\<close>

definition call :: "('a, 's) callback option \<Rightarrow> 'a \<Rightarrow> 's \<Rightarrow> 's" where
  "call cb x s = (case cb of None \<Rightarrow> s | Some f \<Rightarrow> fst (f x s))"

fun dispatch :: "'s ExtendedStreamCallbacks \<Rightarrow> Event \<Rightarrow> 's \<Rightarrow> 's" where
  "dispatch callbacks (ReasoningChunk chunk) s = call (onReasoningChunk callbacks) chunk s"
| "dispatch callbacks (ContentChunk chunk) s = call (onChunk callbacks) chunk s"
| "dispatch callbacks Complete s = call (onComplete callbacks) () s"
| "dispatch callbacks (Failed error) s = call (onError callbacks) error s"

fun replay :: "'s ExtendedStreamCallbacks \<Rightarrow> Event list \<Rightarrow> 's \<Rightarrow> 's" where
  "replay callbacks [] s = s"
| "replay callbacks (e # es) s = replay callbacks es (dispatch callbacks e s)"

text \<open>
  A session of the recording callbacks seen as a session of other callbacks that
  started from \<open>s\<close>: the same locals and console, and the caller's state that the
  recorded invocations produce.
\<close>

definition mirror ::
  "'s ExtendedStreamCallbacks \<Rightarrow> 's \<Rightarrow> (MessageRole \<times> string) list \<Rightarrow> Event list Session \<Rightarrow> 's Session" where
  "mirror callbacks s sent st =
     \<lparr>buffer = buffer st, isAnswering = isAnswering st, console = console st,
      request = sent, client = replay callbacks (client st) s\<rparr>"

text \<open>The chunks of a sequence of invocations, in order of arrival.\<close>

fun reasoningPayloads :: "Event list \<Rightarrow> jsval list" where
  "reasoningPayloads [] = []"
| "reasoningPayloads (ReasoningChunk chunk # es) = chunk # reasoningPayloads es"
| "reasoningPayloads (e # es) = reasoningPayloads es"

fun contentPayloads :: "Event list \<Rightarrow> jsval list" where
  "contentPayloads [] = []"
| "contentPayloads (ContentChunk chunk # es) = chunk # contentPayloads es"
| "contentPayloads (e # es) = contentPayloads es"

fun isFailed :: "Event \<Rightarrow> bool" where
  "isFailed (Failed _) = True"
| "isFailed _ = False"

text \<open>
  The point of \<open>sendMessage\<close> at which the stream is opened (line 261), when it is
  reached: the id of the conversation, the placeholder message just appended and the
  store at that moment.
\<close>

definition placeholderInput :: MessageInput where
  "placeholderInput =
     \<lparr>i_role = Assistant, i_content = [], i_isStreaming = Some True, i_reasoningContent = None\<rparr>"

definition streamStart :: "string \<Rightarrow> ChatStore \<Rightarrow> (string \<times> Message \<times> ChatStore) option" where
  "streamStart content st =
     (case sendMessageBegin content st of
        None \<Rightarrow> None
      | Some (conversationId, st4) \<Rightarrow>
          (case addMessage conversationId placeholderInput st4 of
             (None, st5) \<Rightarrow> None
           | (Some ai, st5) \<Rightarrow> Some (conversationId, ai, st5)))"

text \<open>\<open>message.reasoningContent || ''\<close>.\<close>

definition reasoningText :: "Message \<Rightarrow> string" where
  "reasoningText m = (case m_reasoningContent m of None \<Rightarrow> [] | Some r \<Rightarrow> r)"

text \<open>The messages \<open>sendMessage\<close> hands to the service: \<open>conversation.messages.slice(-10)\<close>.\<close>

definition historySent :: "string \<Rightarrow> ChatStore \<Rightarrow> Message list" where
  "historySent conversationId st =
     lastTen (case find (\<lambda>c. c_id c = conversationId) (conversations st) of
                None \<Rightarrow> []
              | Some conversation \<Rightarrow> c_messages conversation)"

text \<open>
  The message found holds what a sequence of invocations accumulates from the empty
  placeholder: its reasoning text is the concatenation of the reasoning chunks in
  order of arrival, the field being absent when there was none, and its content is the
  concatenation of the content chunks in order of arrival. The content is left open
  when \<open>onError\<close> was invoked, which overwrites it with the diagnostic.
\<close>

definition accumulated :: "Event list \<Rightarrow> Message option \<Rightarrow> bool" where
  "accumulated events found =
     (case found of
        None \<Rightarrow> False
      | Some m \<Rightarrow>
          m_reasoningContent m
            = (if reasoningPayloads events = [] then None
               else Some (concat (map jsToString (reasoningPayloads events))))
          \<and> (list_ex isFailed events
             \<or> m_content m = concat (map jsToString (contentPayloads events))))"

text \<open>
  The message that a lookup by conversation id and message id finds, if any, is an
  assistant message.
\<close>

definition targetIsAssistant :: "string \<Rightarrow> string \<Rightarrow> ChatStore \<Rightarrow> bool" where
  "targetIsAssistant conversationId messageId st =
     (case findMessage conversationId messageId st of
        None \<Rightarrow> True
      | Some m \<Rightarrow> m_role m = Assistant)"

text \<open>What \<open>localStorage\<close> holds under \<open>conversations\<close> satisfies the invariant.\<close>

definition storedOk :: "ChatStore \<Rightarrow> bool" where
  "storedOk st =
     (case storedConversations st of
        NoItem \<Rightarrow> True
      | Malformed \<Rightarrow> True
      | Serialized cs \<Rightarrow> conversationsOk cs)"

text \<open>No conversation of the store has the empty string as its id.\<close>

definition idsNonEmpty :: "ChatStore \<Rightarrow> bool" where
  "idsNonEmpty st = list_all (\<lambda>c. c_id c \<noteq> []) (conversations st)"

section \<open>Concrete states and inputs\<close>

text \<open>
  The store as \<open>defineStore\<close> initialises it, on an empty \<open>localStorage\<close>, for a given
  clock and random source.
\<close>

definition initialStore :: "(nat \<Rightarrow> nat) \<Rightarrow> (nat \<Rightarrow> string) \<Rightarrow> ChatStore" where
  "initialStore clock random =
     \<lparr>conversations = [], activeConversationId = None, isLoading = False, isStreaming = False,
      storedConversations = NoItem, storedActiveId = None, setItemCalls = 0,
      dateNow = clock, ticks = 0, mathRandom = random, draws = 0, errorLog = []\<rparr>"

definition emptyConversation :: "string \<Rightarrow> Conversation" where
  "emptyConversation i =
     \<lparr>c_id = i, c_title = default_title, c_messages = [], c_createdAt = 1, c_updatedAt = 1\<rparr>"

definition demoStore :: "Conversation list \<Rightarrow> string option \<Rightarrow> ChatStore" where
  "demoStore cs active =
     (initialStore (\<lambda>n. 1000 + n) (\<lambda>n. replicate (Suc n) CHR ''r''))
       \<lparr>conversations := cs, activeConversationId := active\<rparr>"

text \<open>
  \<open>JSON.parse\<close> on the three payloads used below: two well-formed deltas and a
  truncated object, which it rejects.
\<close>

definition reasoningPayload :: string where
  \<open>reasoningPayload = ''{"choices":[{"delta":{"reasoning_content":"think"}}]}''\<close>

definition contentPayload :: string where
  \<open>contentPayload = ''{"choices":[{"delta":{"content":"answer"}}]}''\<close>

definition malformedPayload :: string where
  \<open>malformedPayload = ''{"choices":[{"delta":''\<close>

definition sampleParse :: "string \<Rightarrow> jsval option" where
  "sampleParse s =
     (if s = reasoningPayload
      then Some (Obj [(''choices'', Arr [Obj [(''delta'', Obj [(''reasoning_content'', Str ''think'')])]])])
      else if s = contentPayload
      then Some (Obj [(''choices'', Arr [Obj [(''delta'', Obj [(''content'', Str ''answer'')])]])])
      else None)"

definition frame :: "string \<Rightarrow> string" where
  "frame payload = ''data: '' @ payload @ [CHR 0x0A]"

definition okResponse :: "(nat \<times> ReadOutcome) list \<Rightarrow> Response" where
  "okResponse reads = \<lparr>status = 200, bodyText = Inr [], body = Some reads\<rparr>"

text \<open>
  A stream whose frames come content first, then reasoning, then content again.
\<close>

definition latchNet :: Network where
  "latchNet =
     \<lparr>fetchLatency = 120,
      fetchResult = Inr (okResponse
        [(5, Chunk (frame contentPayload)),
         (5, Chunk (frame reasoningPayload)),
         (5, Chunk (frame contentPayload))])\<rparr>"

text \<open>
  A stream with a malformed frame between two well-formed ones, the malformed line
  being split over two reads.
\<close>

definition malformedNet :: Network where
  "malformedNet =
     \<lparr>fetchLatency = 120,
      fetchResult = Inr (okResponse
        [(5, Chunk (frame reasoningPayload @ ''data: '' @ malformedPayload)),
         (5, Chunk ([CHR 0x0A] @ frame contentPayload))])\<rparr>"

text \<open>
  Headers after 100 ms, then one read that takes two minutes.
\<close>

definition slowNet :: Network where
  "slowNet =
     \<lparr>fetchLatency = 100,
      fetchResult = Inr (okResponse [(120000, Chunk (frame contentPayload))])\<rparr>"

text \<open>A body whose first read rejects with a value that is not an \<open>Error\<close>.\<close>

definition brokenNet :: Network where
  "brokenNet =
     \<lparr>fetchLatency = 100,
      fetchResult = Inr (okResponse [(5, ReadError (ThrownValue ''boom''))])\<rparr>"

definition serverErrorNet :: Network where
  "serverErrorNet =
     \<lparr>fetchLatency = 100,
      fetchResult = Inr \<lparr>status = 500, bodyText = Inr ''Internal Server Error'', body = Some []\<rparr>\<rparr>"

definition stalledNet :: Network where
  "stalledNet = \<lparr>fetchLatency = 60000, fetchResult = Inr (okResponse [])\<rparr>"

text \<open>The recording callbacks, with an \<open>onComplete\<close> that throws after being recorded.\<close>

definition throwingRecorder :: "Event list ExtendedStreamCallbacks" where
  "throwingRecorder =
     recorder\<lparr>onComplete :=
       Some (\<lambda>_ tr. (tr @ [Complete], Some (ThrownError (JsError ''TypeError'' ''render failed''))))\<rparr>"

definition freshSession :: "Event list Session" where
  "freshSession = \<lparr>buffer = [], isAnswering = False, console = [], request = [], client = []\<rparr>"

text \<open>A store with one conversation holding an earlier exchange.\<close>

definition earlierMessages :: "Message list" where
  "earlierMessages =
     [\<lparr>m_id = ''u1'', m_role = User, m_content = ''Hello'', m_timestamp = 10,
       m_isStreaming = None, m_reasoningContent = None\<rparr>,
      \<lparr>m_id = ''a1'', m_role = Assistant, m_content = ''Hi there'', m_timestamp = 11,
       m_isStreaming = Some False, m_reasoningContent = Some ''greet''\<rparr>]"

definition chatStore :: ChatStore where
  "chatStore = demoStore [(emptyConversation ''a'')\<lparr>c_messages := earlierMessages\<rparr>] (Some ''a'')"

text \<open>
  The dynamic \<open>import\<close> of the service fails (the chunk cannot be fetched), and the
  store after \<open>sendMessage('Why?')\<close> in that case.
\<close>

definition importError :: thrown where
  "importError = ThrownError (JsError ''TypeError'' ''Failed to fetch dynamically imported module'')"

definition afterImportFailure :: ChatStore where
  "afterImportFailure = sendMessage sampleParse (Some importError) slowNet ''Why?'' chatStore"

text \<open>The store after \<open>sendMessage('Why?')\<close> when the service answers with one frame.\<close>

definition afterAnswer :: ChatStore where
  "afterAnswer = sendMessage sampleParse None slowNet ''Why?'' chatStore"

text \<open>A user message that claims to be streaming.\<close>

definition streamingUserInput :: MessageInput where
  "streamingUserInput =
     \<lparr>i_role = User, i_content = ''x'', i_isStreaming = Some True, i_reasoningContent = None\<rparr>"

definition plainUserInput :: MessageInput where
  "plainUserInput =
     \<lparr>i_role = User, i_content = ''x'', i_isStreaming = None, i_reasoningContent = None\<rparr>"

text \<open>An oracle that makes every \<open>onChunk\<close> throw.\<close>

definition throwOnContent :: "Event list \<Rightarrow> thrown option" where
  "throwOnContent tr =
     (if tr \<noteq> [] \<and> isContentChunk (last tr)
      then Some (ThrownError (JsError ''TypeError'' ''render failed''))
      else None)"

text \<open>
  A stream of two reasoning frames and two content frames over three reads, the
  store after \<open>sendMessage('Why?')\<close> on it, and a sequence of invocations in which
  reasoning and content alternate.
\<close>

definition thinkingNet :: Network where
  "thinkingNet =
     \<lparr>fetchLatency = 120,
      fetchResult = Inr (okResponse
        [(5, Chunk (frame reasoningPayload)),
         (5, Chunk (frame reasoningPayload @ frame contentPayload)),
         (5, Chunk (frame contentPayload))])\<rparr>"

definition afterThinking :: ChatStore where
  "afterThinking = sendMessage sampleParse None thinkingNet ''Why?'' chatStore"

definition alternating :: "Event list" where
  "alternating =
     [ReasoningChunk (Str ''th''), ContentChunk (Str ''an''), ReasoningChunk (Str ''ink''),
      ContentChunk (Str ''swer''), ReasoningChunk (Str ''!'')]"

section \<open>Auxiliary facts\<close>

subsection \<open>The store: first matches, ids, deletion\<close>

lemmas store_defs =
  initialStore_def demoStore_def emptyConversation_def createConversation_def generateId_def
  now_def saveConversations_def decimal.simps digitChar_def Let_def addMessage_def
  pushMessage_def deriveTitle_def switchConversation_def activeConversation_def

lemma find_updateFirst:
  "(\<And>x. P x \<Longrightarrow> P (f x)) \<Longrightarrow> find P (updateFirst P f xs) = map_option f (find P xs)"
  by (induction xs) auto

text \<open>Every generated id contains the \<open>-\<close> of the template, so none is empty.\<close>

lemma generateId_nonempty: "fst (generateId st) \<noteq> []"
  by (simp add: generateId_def now_def Let_def split: prod.splits)

lemma findIndex_first:
  "\<forall>x\<in>set pre. \<not> P x \<Longrightarrow> P c \<Longrightarrow> findIndex P (pre @ c # post) = Some (length pre)"
  by (induction pre) auto

lemma splice1_middle: "splice1 (length pre) (pre @ c # post) = pre @ post"
  by (simp add: splice1_def)

lemma find_hd: "xs \<noteq> [] \<Longrightarrow> P (hd xs) \<Longrightarrow> find P xs = Some (hd xs)"
  by (cases xs) auto

lemma createConversation_result:
  "conversations (snd (createConversation st)) = fst (createConversation st) # conversations st
   \<and> activeConversationId (snd (createConversation st)) = Some (c_id (fst (createConversation st)))
   \<and> c_messages (fst (createConversation st)) = []
   \<and> c_id (fst (createConversation st)) = fst (generateId st)"
  by (simp add: createConversation_def generateId_def now_def saveConversations_def Let_def
      split: prod.splits)

subsection \<open>The service: the phase latch\<close>

lemmas service_defs =
  trace_def sendStreamMessage_def processLine_def routeFrame_def trim_def isWhiteSpace_def
  startsWith_def frame_def reasoningPayload_def contentPayload_def malformedPayload_def
  sampleParse_def okResponse_def ok_def timeoutMs_def getProp_def truthy_def nullish_def
  optionalLength_def lengthNum_def Let_def formatMessages_def invoke_def recorder_def

lemma noReasoningAfterContent_append:
  "noReasoningAfterContent (xs @ ys) =
     (noReasoningAfterContent xs \<and> noReasoningAfterContent ys
      \<and> (list_ex isContentChunk xs \<longrightarrow> \<not> list_ex isReasoningChunk ys))"
  by (induction xs) (auto simp: list_ex_iff)

lemma invoke_recorder [simp]:
  "invoke (onChunk recorder) v st = (None, st\<lparr>client := client st @ [ContentChunk v]\<rparr>)"
  "invoke (onReasoningChunk recorder) v st = (None, st\<lparr>client := client st @ [ReasoningChunk v]\<rparr>)"
  "invoke (onComplete recorder) u st = (None, st\<lparr>client := client st @ [Complete]\<rparr>)"
  "invoke (onError recorder) e st = (None, st\<lparr>client := client st @ [Failed e]\<rparr>)"
  by (simp_all add: invoke_def recorder_def)

lemma invoke_recorderWith [simp]:
  "invoke (onChunk (recorderWith decide)) v st
     = (decide (client st @ [ContentChunk v]), st\<lparr>client := client st @ [ContentChunk v]\<rparr>)"
  "invoke (onReasoningChunk (recorderWith decide)) v st
     = (decide (client st @ [ReasoningChunk v]), st\<lparr>client := client st @ [ReasoningChunk v]\<rparr>)"
  "invoke (onComplete (recorderWith decide)) u st
     = (decide (client st @ [Complete]), st\<lparr>client := client st @ [Complete]\<rparr>)"
  "invoke (onError (recorderWith decide)) e st
     = (decide (client st @ [Failed e]), st\<lparr>client := client st @ [Failed e]\<rparr>)"
  by (simp_all add: invoke_def recorderWith_def)

lemma recorder_recorderWith: "recorder = recorderWith (\<lambda>_. None)"
  by (simp add: recorder_def recorderWith_def)

lemma routeFrame_latch:
  "latchInv st \<Longrightarrow> latchInv (snd (routeFrame parse (recorderWith decide) data st))"
  by (auto simp: routeFrame_def latchInv_def noReasoningAfterContent_append Let_def list_ex_iff
      split: option.splits)

lemma latchInv_console [simp]: "latchInv (st\<lparr>console := es\<rparr>) = latchInv st"
  by (simp add: latchInv_def)

lemma latchInv_buffer [simp]: "latchInv (st\<lparr>buffer := b\<rparr>) = latchInv st"
  by (simp add: latchInv_def)

lemma processLine_latch:
  assumes "latchInv st"
  shows "latchInv (processLine parse (recorderWith decide) line st)"
proof -
  obtain threw st1 where r: "routeFrame parse (recorderWith decide) (trim (drop 6 (trim line))) st = (threw, st1)"
    by (cases "routeFrame parse (recorderWith decide) (trim (drop 6 (trim line))) st")
  have "latchInv st1"
    using routeFrame_latch [OF assms, of parse decide "trim (drop 6 (trim line))"] r by simp
  then show ?thesis
    using assms r by (simp add: processLine_def Let_def)
qed

lemma processLines_latch:
  "latchInv st \<Longrightarrow> latchInv (processLines parse (recorderWith decide) ls st)"
  by (induction ls arbitrary: st) (simp_all add: processLine_latch)

lemma readLoop_latch:
  "latchInv st \<Longrightarrow> latchInv (snd (readLoop parse (recorderWith decide) reads st))"
proof (induction reads arbitrary: st)
  case Nil
  then show ?case by (simp add: latchInv_def noReasoningAfterContent_append)
next
  case (Cons r reads)
  obtain wait outcome where r: "r = (wait, outcome)" by (cases r)
  show ?case
  proof (cases outcome)
    case (Chunk piece)
    then show ?thesis using Cons r by (simp add: Let_def processLines_latch)
  next
    case (ReadError e)
    then show ?thesis using Cons r by simp
  qed
qed

lemma handleFailure_latch:
  "latchInv st \<Longrightarrow> latchInv (snd (handleFailure (recorderWith decide) e st))"
  by (auto simp: handleFailure_def latchInv_def noReasoningAfterContent_append split: thrown.splits)

lemma afterLoop_latch:
  assumes "latchInv st"
  shows "latchInv (snd (case readLoop parse (recorderWith decide) reads st of
                          (None, st1) \<Rightarrow> (None, st1)
                        | (Some e, st1) \<Rightarrow> handleFailure (recorderWith decide) e st1))"
proof -
  obtain r st1 where l: "readLoop parse (recorderWith decide) reads st = (r, st1)"
    by (cases "readLoop parse (recorderWith decide) reads st")
  have "latchInv st1"
    using readLoop_latch [OF assms, of parse decide reads] l by simp
  then show ?thesis
    using l by (cases r) (simp_all add: handleFailure_latch)
qed

subsection \<open>The service: malformed frames, terminal callbacks, timing\<close>

lemma processLines_append:
  "processLines parse callbacks (xs @ ys) st = processLines parse callbacks ys (processLines parse callbacks xs st)"
  by (induction xs arbitrary: st) simp_all

lemma startsWith_data:
  "startsWith t ''data: '' \<Longrightarrow> t \<noteq> [] \<and> \<not> startsWith t '':''"
  by (cases t) (auto simp: startsWith_def)

lemma routeFrame_quiet:
  "list_all (\<lambda>e. \<not> isTerminal e) (client st)
   \<Longrightarrow> list_all (\<lambda>e. \<not> isTerminal e) (client (snd (routeFrame parse recorder data st)))"
  by (auto simp: routeFrame_def Let_def split: option.splits)

lemma processLine_quiet:
  assumes "list_all (\<lambda>e. \<not> isTerminal e) (client st)"
  shows "list_all (\<lambda>e. \<not> isTerminal e) (client (processLine parse recorder line st))"
proof -
  obtain threw st1 where r: "routeFrame parse recorder (trim (drop 6 (trim line))) st = (threw, st1)"
    by (cases "routeFrame parse recorder (trim (drop 6 (trim line))) st")
  have "list_all (\<lambda>e. \<not> isTerminal e) (client st1)"
    using routeFrame_quiet [OF assms, of parse "trim (drop 6 (trim line))"] r by simp
  then show ?thesis
    using assms r by (simp add: processLine_def Let_def)
qed

lemma processLines_quiet:
  "list_all (\<lambda>e. \<not> isTerminal e) (client st)
   \<Longrightarrow> list_all (\<lambda>e. \<not> isTerminal e) (client (processLines parse recorder ls st))"
  by (induction ls arbitrary: st) (simp_all add: processLine_quiet)

lemma readLoop_outcome:
  "list_all (\<lambda>e. \<not> isTerminal e) (client st)
   \<Longrightarrow> fst (readLoop parse recorder reads st) = firstReadError reads
     \<and> (\<exists>chunks. list_all (\<lambda>e. \<not> isTerminal e) chunks
           \<and> client (snd (readLoop parse recorder reads st))
               = chunks @ (case firstReadError reads of None \<Rightarrow> [Complete] | Some _ \<Rightarrow> []))"
proof (induction reads arbitrary: st)
  case Nil
  then show ?case by simp
next
  case (Cons r reads)
  obtain wait outcome where r: "r = (wait, outcome)" by (cases r)
  show ?case
  proof (cases outcome)
    case (Chunk piece)
    let ?st1 = "processLines parse recorder (butlast (splitLines (buffer st @ piece)))
                  (st\<lparr>buffer := last (splitLines (buffer st @ piece))\<rparr>)"
    have "list_all (\<lambda>e. \<not> isTerminal e) (client ?st1)"
      using Cons.prems by (simp add: processLines_quiet)
    from Cons.IH [OF this] show ?thesis
      using r Chunk by (simp add: Let_def)
  next
    case (ReadError e)
    then show ?thesis using Cons.prems r by simp
  qed
qed

lemma handleFailure_recorder:
  "handleFailure recorder e st
     = (None, st\<lparr>console := console st @
                    (case e of ThrownValue _ \<Rightarrow> []
                     | ThrownError x \<Rightarrow> if err_name x = ''AbortError'' then [RequestAborted] else [ApiFailure x]),
                 client := client st @ expectedTerminal (Some e)\<rparr>)"
  by (simp add: handleFailure_def expectedTerminal_def split: thrown.splits)

lemma afterLoop_outcome:
  assumes "list_all (\<lambda>e. \<not> isTerminal e) (client st)"
  shows "\<exists>chunks. list_all (\<lambda>e. \<not> isTerminal e) chunks
           \<and> client (snd (case readLoop parse recorder reads st of
                          (None, st1) \<Rightarrow> (None, st1)
                        | (Some e, st1) \<Rightarrow> handleFailure recorder e st1))
               = chunks @ expectedTerminal (firstReadError reads)"
proof -
  obtain r st1 where l: "readLoop parse recorder reads st = (r, st1)"
    by (cases "readLoop parse recorder reads st")
  from readLoop_outcome [OF assms, of parse reads] l
  obtain chunks where c: "r = firstReadError reads" "list_all (\<lambda>e. \<not> isTerminal e) chunks"
     "client st1 = chunks @ (case firstReadError reads of None \<Rightarrow> [Complete] | Some _ \<Rightarrow> [])"
    by auto
  show ?thesis
  proof (cases r)
    case None
    then show ?thesis using l c by (auto simp: expectedTerminal_def)
  next
    case (Some e)
    then show ?thesis using l c by (auto simp: handleFailure_recorder)
  qed
qed

lemma readLoop_retime:
  "readLoop parse callbacks (map (\<lambda>(wait, r). (f wait, r)) reads) st = readLoop parse callbacks reads st"
proof (induction reads arbitrary: st)
  case Nil
  then show ?case by simp
next
  case (Cons r reads)
  obtain wait outcome where r: "r = (wait, outcome)" by (cases r)
  show ?case using Cons r by (cases outcome) (simp_all add: Let_def)
qed

subsection \<open>The chunk handlers of sendMessage\<close>

lemma findMessage_mutate:
  assumes "\<And>m. m_id (f m) = m_id m"
  shows "findMessage cid mid (mutateMessage cid mid f st) = map_option f (findMessage cid mid st)"
proof (cases "find (\<lambda>c. c_id c = cid) (conversations st)")
  case None
  then show ?thesis by (simp add: findMessage_def mutateMessage_def)
next
  case (Some c)
  show ?thesis
  proof (cases "find (\<lambda>m. m_id m = mid) (c_messages c)")
    case None
    then show ?thesis using Some by (simp add: findMessage_def mutateMessage_def)
  next
    case (Some m)
    then show ?thesis
      using \<open>find (\<lambda>c. c_id c = cid) (conversations st) = Some c\<close> assms
      by (simp add: findMessage_def mutateMessage_def now_def saveConversations_def Let_def
          find_updateFirst)
  qed
qed

subsection \<open>The invariant on user messages\<close>

lemma list_all_updateFirst:
  "list_all Q xs \<Longrightarrow> (\<And>x. find P xs = Some x \<Longrightarrow> Q x \<Longrightarrow> Q (g x))
   \<Longrightarrow> list_all Q (updateFirst P g xs)"
  by (induction xs) auto

lemma conversationsOk_patch:
  assumes ok: "conversationsOk cs"
    and target: "\<And>c m. find (\<lambda>c. c_id c = cid) cs = Some c \<Longrightarrow>
                   find (\<lambda>m. m_id m = mid) (c_messages c) = Some m \<Longrightarrow> messageOk m \<Longrightarrow> messageOk (f m)"
    and shape: "\<And>c. c_messages (h c) = updateFirst (\<lambda>m. m_id m = mid) f (c_messages c)"
  shows "conversationsOk (updateFirst (\<lambda>c. c_id c = cid) h cs)"
  unfolding conversationsOk_def
proof (rule list_all_updateFirst)
  show "list_all (\<lambda>c. list_all messageOk (c_messages c)) cs"
    using ok by (simp add: conversationsOk_def)
next
  fix c
  assume c: "find (\<lambda>c. c_id c = cid) cs = Some c" and okc: "list_all messageOk (c_messages c)"
  show "list_all messageOk (c_messages (h c))"
    unfolding shape
    by (rule list_all_updateFirst [OF okc]) (rule target [OF c])
qed

lemma roleInvariant_mutate:
  assumes "roleInvariant st"
    and "\<And>m. findMessage cid mid st = Some m \<Longrightarrow> messageOk m \<Longrightarrow> messageOk (f m)"
  shows "roleInvariant (mutateMessage cid mid f st)"
proof (cases "findMessage cid mid st")
  case None
  then show ?thesis using assms(1)
    by (auto simp: mutateMessage_def findMessage_def split: option.splits)
next
  case (Some m)
  then obtain c where c: "find (\<lambda>c. c_id c = cid) (conversations st) = Some c"
      "find (\<lambda>m. m_id m = mid) (c_messages c) = Some m"
    by (auto simp: findMessage_def split: option.splits)
  have "conversationsOk (updateFirst (\<lambda>c. c_id c = cid)
          (\<lambda>c. c\<lparr>c_messages := updateFirst (\<lambda>m. m_id m = mid) f (c_messages c),
                  c_updatedAt := dateNow st (ticks st)\<rparr>) (conversations st))"
    using assms c by (intro conversationsOk_patch) (auto simp: roleInvariant_def findMessage_def)
  then show ?thesis using c
    by (simp add: mutateMessage_def roleInvariant_def now_def saveConversations_def Let_def)
qed

lemma roleInvariant_patch:
  assumes "roleInvariant st"
    and "\<And>m. findMessage cid mid st = Some m \<Longrightarrow> messageOk m \<Longrightarrow> messageOk (f m)"
  shows "roleInvariant (patchMessage cid mid f st)"
proof -
  have "conversationsOk (updateFirst (\<lambda>c. c_id c = cid)
          (\<lambda>c. c\<lparr>c_messages := updateFirst (\<lambda>m. m_id m = mid) f (c_messages c)\<rparr>) (conversations st))"
    using assms by (intro conversationsOk_patch) (auto simp: roleInvariant_def findMessage_def)
  then show ?thesis by (simp add: patchMessage_def roleInvariant_def)
qed

lemma findMessage_patch:
  assumes "\<And>m. m_id (f m) = m_id m"
  shows "findMessage cid mid (patchMessage cid mid f st) = map_option f (findMessage cid mid st)"
  using assms
  by (cases "find (\<lambda>c. c_id c = cid) (conversations st)")
     (simp_all add: findMessage_def patchMessage_def find_updateFirst)

lemma roleInvariant_createConversation:
  "roleInvariant st \<Longrightarrow> roleInvariant (snd (createConversation st))"
  by (simp add: roleInvariant_def conversationsOk_def createConversation_def generateId_def now_def
      saveConversations_def Let_def split: prod.splits)

lemma list_all_splice1: "list_all Q xs \<Longrightarrow> list_all Q (splice1 k xs)"
  by (auto simp: splice1_def list_all_iff dest: in_set_takeD in_set_dropD)

lemma roleInvariant_deleteConversation:
  assumes "roleInvariant st"
  shows "roleInvariant (deleteConversation i st)"
proof (cases "findIndex (\<lambda>c. c_id c = i) (conversations st)")
  case None
  then show ?thesis using assms by (simp add: deleteConversation_def)
next
  case (Some k)
  have rest: "roleInvariant (st\<lparr>conversations := splice1 k (conversations st)\<rparr>)"
    using assms by (simp add: roleInvariant_def conversationsOk_def list_all_splice1)
  show ?thesis
  proof (cases "activeConversationId st = Some i \<and> splice1 k (conversations st) = []")
    case True
    then show ?thesis
      using Some roleInvariant_createConversation [OF rest]
      by (simp add: deleteConversation_def Let_def saveConversations_def roleInvariant_def)
  next
    case False
    then show ?thesis
      using Some rest
      by (auto simp: deleteConversation_def Let_def saveConversations_def roleInvariant_def)
  qed
qed

lemma roleInvariant_addMessage:
  assumes "roleInvariant st" and "inputOk message"
  shows "roleInvariant (snd (addMessage cid message st))"
proof (cases "find (\<lambda>c. c_id c = cid) (conversations st)")
  case None
  then show ?thesis using assms by (simp add: addMessage_def)
next
  case (Some c)
  let ?new = "\<lparr>m_id = fst (generateId st), m_role = i_role message, m_content = i_content message,
               m_timestamp = dateNow st (Suc (ticks st)), m_isStreaming = i_isStreaming message,
               m_reasoningContent = i_reasoningContent message\<rparr>"
  have new: "messageOk ?new"
    using assms(2) by (simp add: messageOk_def inputOk_def)
  have "list_all (\<lambda>c. list_all messageOk (c_messages c))
          (updateFirst (\<lambda>c. c_id c = cid) (pushMessage message ?new t) (conversations st))" for t
    using assms(1) new
    by (intro list_all_updateFirst)
       (auto simp: roleInvariant_def conversationsOk_def pushMessage_def Let_def)
  then show ?thesis using Some
    by (simp add: addMessage_def generateId_def now_def saveConversations_def Let_def
        roleInvariant_def conversationsOk_def split: prod.splits)
qed

lemma roleInvariant_loadConversations:
  assumes "roleInvariant st" and "storedOk st"
  shows "roleInvariant (loadConversations st)"
proof -
  let ?st1 = "case storedConversations st of
                NoItem \<Rightarrow> st
              | Malformed \<Rightarrow> st\<lparr>errorLog := errorLog st @ [LoadFailed]\<rparr>
              | Serialized cs \<Rightarrow> st\<lparr>conversations := cs\<rparr>"
  have st1: "roleInvariant ?st1"
    using assms by (auto simp: roleInvariant_def storedOk_def split: StoredConversations.splits)
  show ?thesis
    using st1 roleInvariant_createConversation [OF st1]
    by (simp add: loadConversations_def Let_def roleInvariant_def)
qed

subsection \<open>Preservation through a call of the service\<close>

text \<open>
  Whatever each callback preserves on the caller's state, the whole call preserves.
\<close>

lemma invoke_preserves:
  assumes "\<And>f s. cb = Some f \<Longrightarrow> P s \<Longrightarrow> P (fst (f x s))" and "P (client st)"
  shows "P (client (snd (invoke cb x st)))"
  using assms by (cases cb) (auto simp: invoke_def case_prod_beta)

lemma routeFrame_preserves:
  assumes chunk: "\<And>f v s. onChunk cbs = Some f \<Longrightarrow> P s \<Longrightarrow> P (fst (f v s))"
    and reasoning: "\<And>f v s. onReasoningChunk cbs = Some f \<Longrightarrow> P s \<Longrightarrow> P (fst (f v s))"
    and "P (client st)"
  shows "P (client (snd (routeFrame parse cbs data st)))"
proof -
  have r: "\<And>v s. P (client s) \<Longrightarrow> P (client (snd (invoke (onReasoningChunk cbs) v s)))"
    by (rule invoke_preserves) (auto intro: reasoning)
  have c: "\<And>v s. P (client s) \<Longrightarrow> P (client (snd (invoke (onChunk cbs) v s)))"
    by (rule invoke_preserves) (auto intro: chunk)
  show ?thesis
    using assms(3)
    by (simp add: routeFrame_def Let_def case_prod_beta r c split: option.splits)
qed


lemma processLine_preserves:
  assumes chunk: "\<And>f v s. onChunk cbs = Some f \<Longrightarrow> P s \<Longrightarrow> P (fst (f v s))"
    and reasoning: "\<And>f v s. onReasoningChunk cbs = Some f \<Longrightarrow> P s \<Longrightarrow> P (fst (f v s))"
    and "P (client st)"
  shows "P (client (processLine parse cbs line st))"
proof -
  have "P (client (snd (routeFrame parse cbs (trim (drop 6 (trim line))) st)))"
    using chunk reasoning assms(3) by (rule routeFrame_preserves)
  then show ?thesis
    using assms(3) by (simp add: processLine_def Let_def case_prod_beta)
qed

lemma processLines_preserves:
  assumes chunk: "\<And>f v s. onChunk cbs = Some f \<Longrightarrow> P s \<Longrightarrow> P (fst (f v s))"
    and reasoning: "\<And>f v s. onReasoningChunk cbs = Some f \<Longrightarrow> P s \<Longrightarrow> P (fst (f v s))"
  shows "P (client st) \<Longrightarrow> P (client (processLines parse cbs ls st))"
proof (induction ls arbitrary: st)
  case Nil
  then show ?case by simp
next
  case (Cons l ls)
  have "P (client (processLine parse cbs l st))"
    using chunk reasoning Cons.prems by (rule processLine_preserves)
  then show ?case using Cons.IH by simp
qed

lemma readLoop_preserves:
  assumes chunk: "\<And>f v s. onChunk cbs = Some f \<Longrightarrow> P s \<Longrightarrow> P (fst (f v s))"
    and reasoning: "\<And>f v s. onReasoningChunk cbs = Some f \<Longrightarrow> P s \<Longrightarrow> P (fst (f v s))"
    and complete: "\<And>f v s. onComplete cbs = Some f \<Longrightarrow> P s \<Longrightarrow> P (fst (f v s))"
  shows "P (client st) \<Longrightarrow> P (client (snd (readLoop parse cbs reads st)))"
proof (induction reads arbitrary: st)
  case Nil
  have "P (client (snd (invoke (onComplete cbs) () st)))"
    using complete Nil by (rule invoke_preserves)
  then show ?case by simp
next
  case (Cons r reads)
  obtain wait outcome where r: "r = (wait, outcome)" by (cases r)
  show ?case
  proof (cases outcome)
    case (Chunk piece)
    have "P (client (st\<lparr>buffer := last (splitLines (buffer st @ piece))\<rparr>))"
      using Cons.prems by simp
    with chunk reasoning
    have "P (client (processLines parse cbs (butlast (splitLines (buffer st @ piece)))
                       (st\<lparr>buffer := last (splitLines (buffer st @ piece))\<rparr>)))"
      by (rule processLines_preserves)
    then show ?thesis using Cons.IH r Chunk by (simp add: Let_def)
  next
    case (ReadError e)
    then show ?thesis using Cons.prems r by simp
  qed
qed

lemma handleFailure_preserves:
  assumes error: "\<And>f v s. onError cbs = Some f \<Longrightarrow> P s \<Longrightarrow> P (fst (f v s))"
    and "P (client st)"
  shows "P (client (snd (handleFailure cbs e st)))"
proof -
  have "\<And>v s. P (client s) \<Longrightarrow> P (client (snd (invoke (onError cbs) v s)))"
    by (rule invoke_preserves) (auto intro: error)
  then show ?thesis using assms(2)
    by (simp add: handleFailure_def split: thrown.splits)
qed

lemma sendStreamMessage_preserves:
  assumes chunk: "\<And>f v s. onChunk cbs = Some f \<Longrightarrow> P s \<Longrightarrow> P (fst (f v s))"
    and reasoning: "\<And>f v s. onReasoningChunk cbs = Some f \<Longrightarrow> P s \<Longrightarrow> P (fst (f v s))"
    and complete: "\<And>f v s. onComplete cbs = Some f \<Longrightarrow> P s \<Longrightarrow> P (fst (f v s))"
    and error: "\<And>f v s. onError cbs = Some f \<Longrightarrow> P s \<Longrightarrow> P (fst (f v s))"
    and "P (s :: 's)"
  shows "P (client (snd (sendStreamMessage parse messages cbs net s)))"
proof -
  have fail: "P (client st) \<Longrightarrow> P (client (snd (handleFailure cbs e st)))"
    for e and st :: "'s Session"
    using error by (rule handleFailure_preserves)
  have loop: "P (client st) \<Longrightarrow> P (client (snd (readLoop parse cbs reads st)))"
    for reads and st :: "'s Session"
    using chunk reasoning complete by (rule readLoop_preserves)
  have after: "P (client st) \<Longrightarrow>
     P (client (snd (case readLoop parse cbs reads st of
                          (None, st1) \<Rightarrow> (None, st1)
                        | (Some e, st1) \<Rightarrow> handleFailure cbs e st1)))"
    for reads and st :: "'s Session"
  proof -
    assume p: "P (client st)"
    obtain r st1 where l: "readLoop parse cbs reads st = (r, st1)"
      by (cases "readLoop parse cbs reads st")
    have "P (client st1)" using loop [OF p, of reads] l by simp
    then show "P (client (snd (case readLoop parse cbs reads st of
                          (None, st1) \<Rightarrow> (None, st1)
                        | (Some e, st1) \<Rightarrow> handleFailure cbs e st1)))"
      using l by (cases r) (simp_all add: fail)
  qed
  show ?thesis
    using assms(5)
    by (simp add: sendStreamMessage_def Let_def fail after split: sum.splits option.splits)
qed

subsection \<open>The callbacks of sendMessage preserve the invariant\<close>

lemma messageOk_updates [simp]:
  "messageOk m \<Longrightarrow> messageOk (m\<lparr>m_content := x\<rparr>)"
  "messageOk m \<Longrightarrow> messageOk (m\<lparr>m_isStreaming := Some False\<rparr>)"
  "messageOk m \<Longrightarrow> messageOk (m\<lparr>m_content := x, m_isStreaming := Some False\<rparr>)"
  by (auto simp: messageOk_def)

lemma roleInvariant_flags [simp]:
  "roleInvariant (st\<lparr>isLoading := a\<rparr>) = roleInvariant st"
  "roleInvariant (st\<lparr>isStreaming := b\<rparr>) = roleInvariant st"
  "roleInvariant (st\<lparr>errorLog := l\<rparr>) = roleInvariant st"
  "roleInvariant (st\<lparr>activeConversationId := i\<rparr>) = roleInvariant st"
  by (simp_all add: roleInvariant_def)

lemma findMessage_flags [simp]:
  "findMessage cid mid (st\<lparr>isLoading := a\<rparr>) = findMessage cid mid st"
  "findMessage cid mid (st\<lparr>isStreaming := b\<rparr>) = findMessage cid mid st"
  "findMessage cid mid (st\<lparr>errorLog := l\<rparr>) = findMessage cid mid st"
  by (simp_all add: findMessage_def)

lemma onChunkHandler_preserves:
  assumes "roleInvariant st \<and> targetIsAssistant cid aid st"
  shows "roleInvariant (onChunkHandler cid aid chunk st)
         \<and> targetIsAssistant cid aid (onChunkHandler cid aid chunk st)"
proof (cases "findMessage cid aid st")
  case None
  then show ?thesis using assms by (simp add: onChunkHandler_def)
next
  case (Some m)
  have "roleInvariant (mutateMessage cid aid (\<lambda>x. x\<lparr>m_content := m_content m @ jsToString chunk\<rparr>) st)"
    using assms by (intro roleInvariant_mutate) simp_all
  then show ?thesis using assms Some
    by (simp add: onChunkHandler_def updateMessage_def targetIsAssistant_def findMessage_mutate)
qed

lemma onReasoningChunkHandler_preserves:
  assumes "roleInvariant st \<and> targetIsAssistant cid aid st"
  shows "roleInvariant (onReasoningChunkHandler cid aid chunk st)
         \<and> targetIsAssistant cid aid (onReasoningChunkHandler cid aid chunk st)"
proof (cases "findMessage cid aid st")
  case None
  then show ?thesis using assms by (simp add: onReasoningChunkHandler_def)
next
  case (Some m)
  have "roleInvariant (mutateMessage cid aid (\<lambda>x. x\<lparr>m_reasoningContent := Some r\<rparr>) st)" for r
    using assms Some by (intro roleInvariant_mutate) (simp_all add: targetIsAssistant_def messageOk_def)
  then show ?thesis using assms Some
    by (simp add: onReasoningChunkHandler_def updateReasoningContent_def targetIsAssistant_def
        findMessage_mutate)
qed

lemma onCompleteHandler_preserves:
  assumes "roleInvariant st \<and> targetIsAssistant cid aid st"
  shows "roleInvariant (onCompleteHandler cid aid st)
         \<and> targetIsAssistant cid aid (onCompleteHandler cid aid st)"
proof -
  have "roleInvariant (patchMessage cid aid (\<lambda>m. m\<lparr>m_isStreaming := Some False\<rparr>) st)"
    using assms by (intro roleInvariant_patch) simp_all
  then show ?thesis using assms
    by (cases "findMessage cid aid st")
       (simp_all add: onCompleteHandler_def targetIsAssistant_def findMessage_patch)
qed

lemma onErrorHandler_preserves:
  assumes "roleInvariant st \<and> targetIsAssistant cid aid st"
  shows "roleInvariant (onErrorHandler cid aid error st)
         \<and> targetIsAssistant cid aid (onErrorHandler cid aid error st)"
proof -
  let ?st1 = "st\<lparr>errorLog := errorLog st @ [ApiResponseError error],
                 isLoading := False, isStreaming := False\<rparr>"
  have "roleInvariant (patchMessage cid aid
          (\<lambda>m. m\<lparr>m_content := diagnostic (err_message error), m_isStreaming := Some False\<rparr>) ?st1)"
    using assms by (intro roleInvariant_patch) simp_all
  then show ?thesis using assms
    by (cases "findMessage cid aid st")
       (simp_all add: onErrorHandler_def Let_def targetIsAssistant_def findMessage_patch)
qed

lemma storeCallbacks_preserve:
  assumes "roleInvariant st \<and> targetIsAssistant cid aid st"
  shows "roleInvariant (client (snd (sendStreamMessage parse messages (storeCallbacks cid aid) net st)))"
proof -
  have "(\<lambda>s. roleInvariant s \<and> targetIsAssistant cid aid s)
          (client (snd (sendStreamMessage parse messages (storeCallbacks cid aid) net st)))"
  proof (rule sendStreamMessage_preserves)
    show "roleInvariant st \<and> targetIsAssistant cid aid st" by (rule assms)
  qed (auto simp: storeCallbacks_def onChunkHandler_preserves onReasoningChunkHandler_preserves
        onCompleteHandler_preserves onErrorHandler_preserves)
  then show ?thesis by simp
qed

lemma find_append_fresh:
  "k \<notin> set (map g xs) \<Longrightarrow> g y = k \<Longrightarrow> find (\<lambda>x. g x = k) (xs @ [y]) = Some y"
  by (induction xs) auto

lemma addMessage_placeholder:
  assumes "find (\<lambda>c. c_id c = cid) (conversations st) = Some c"
    and "fst (generateId st) \<notin> set (map m_id (c_messages c))"
  shows "\<exists>ai. fst (addMessage cid message st) = Some ai
           \<and> findMessage cid (m_id ai) (snd (addMessage cid message st)) = Some ai
           \<and> m_role ai = i_role message
           \<and> m_content ai = i_content message
           \<and> m_reasoningContent ai = i_reasoningContent message"
  using assms
  by (auto simp: addMessage_def generateId_def now_def saveConversations_def Let_def findMessage_def
      find_updateFirst pushMessage_def find_append_fresh split: prod.splits)

lemma addMessage_None:
  "find (\<lambda>c. c_id c = cid) (conversations st) = None \<Longrightarrow> addMessage cid message st = (None, st)"
  by (simp add: addMessage_def)

lemma sendMessageBegin_roleInvariant:
  assumes "roleInvariant st" and "sendMessageBegin content st = Some (cid, st4)"
  shows "roleInvariant st4"
proof -
  let ?user = "\<lparr>i_role = User, i_content = trim content, i_isStreaming = None, i_reasoningContent = None\<rparr>"
  have user: "inputOk ?user" by (simp add: inputOk_def)
  have "roleInvariant (snd (addMessage k ?user s))" if "roleInvariant s" for k s
    using that user by (rule roleInvariant_addMessage)
  then show ?thesis
    using assms roleInvariant_createConversation [OF assms(1)]
    by (auto simp: sendMessageBegin_def Let_def case_prod_beta split: if_splits option.splits)
qed

lemma sendMessage_roleInvariant:
  assumes inv: "roleInvariant st" and fresh: "placeholderFresh content st"
  shows "roleInvariant (sendMessage parse importRejection net content st)"
proof (cases "sendMessageBegin content st")
  case None
  then show ?thesis using inv by (simp add: sendMessage_def)
next
  case (Some begun)
  obtain cid st4 where begun: "begun = (cid, st4)" by (cases begun)
  let ?input = "\<lparr>i_role = Assistant, i_content = [], i_isStreaming = Some True,
                 i_reasoningContent = None\<rparr>"
  have inv4: "roleInvariant st4"
    using inv Some begun by (auto intro: sendMessageBegin_roleInvariant)
  have inv5: "roleInvariant (snd (addMessage cid ?input st4))"
    using inv4 by (rule roleInvariant_addMessage) (simp add: inputOk_def)
  show ?thesis
  proof (cases "find (\<lambda>c. c_id c = cid) (conversations st4)")
    case None
    then show ?thesis using Some begun inv4
      by (simp add: sendMessage_def addMessage_None)
  next
    case (Some c)
    have "fst (generateId st4) \<notin> set (map m_id (c_messages c))"
      using fresh \<open>sendMessageBegin content st = Some begun\<close> begun Some
      by (simp add: placeholderFresh_def)
    from addMessage_placeholder [OF Some this, of ?input]
    obtain ai where ai: "fst (addMessage cid ?input st4) = Some ai"
        "findMessage cid (m_id ai) (snd (addMessage cid ?input st4)) = Some ai"
        "m_role ai = Assistant"
      by auto
    have target: "targetIsAssistant cid (m_id ai) (snd (addMessage cid ?input st4))"
      using ai by (simp add: targetIsAssistant_def)
    have streamed: "roleInvariant (client (snd (sendStreamMessage parse messages
                      (storeCallbacks cid (m_id ai)) net (snd (addMessage cid ?input st4)))))"
      for messages
      using inv5 target by (intro storeCallbacks_preserve) simp
    show ?thesis
      using \<open>sendMessageBegin content st = Some begun\<close> begun ai(1) inv5 streamed
      by (simp add: sendMessage_def Let_def case_prod_beta sendFailed_def split: option.splits)
  qed
qed

subsection \<open>Ids stay non-empty\<close>

text \<open>
  The store starts with no conversation, every conversation it
  adds carries a generated id, and no operation changes the id of a conversation.
\<close>

lemma idsNonEmpty_initialStore: "idsNonEmpty (initialStore clock random)"
  by (simp add: idsNonEmpty_def initialStore_def)

lemma idsNonEmpty_createConversation:
  "idsNonEmpty st \<Longrightarrow> idsNonEmpty (snd (createConversation st))"
  using generateId_nonempty [of st]
  by (simp add: idsNonEmpty_def createConversation_result)

lemma idsNonEmpty_deleteConversation:
  assumes "idsNonEmpty st"
  shows "idsNonEmpty (deleteConversation i st)"
proof (cases "findIndex (\<lambda>c. c_id c = i) (conversations st)")
  case None
  then show ?thesis using assms by (simp add: deleteConversation_def)
next
  case (Some k)
  have rest: "idsNonEmpty (st\<lparr>conversations := splice1 k (conversations st)\<rparr>)"
    using assms by (simp add: idsNonEmpty_def list_all_splice1)
  show ?thesis
  proof (cases "activeConversationId st = Some i \<and> splice1 k (conversations st) = []")
    case True
    then show ?thesis
      using Some idsNonEmpty_createConversation [OF rest]
      by (simp add: deleteConversation_def Let_def saveConversations_def idsNonEmpty_def)
  next
    case False
    then show ?thesis
      using Some rest
      by (auto simp: deleteConversation_def Let_def saveConversations_def idsNonEmpty_def)
  qed
qed

lemma idsNonEmpty_addMessage:
  assumes "idsNonEmpty st"
  shows "idsNonEmpty (snd (addMessage cid message st))"
proof (cases "find (\<lambda>c. c_id c = cid) (conversations st)")
  case None
  then show ?thesis using assms by (simp add: addMessage_def)
next
  case (Some c)
  have "list_all (\<lambda>c. c_id c \<noteq> [])
          (updateFirst (\<lambda>c. c_id c = cid) (pushMessage message new t) (conversations st))" for new t
    using assms
    by (intro list_all_updateFirst) (auto simp: idsNonEmpty_def pushMessage_def Let_def)
  then show ?thesis using Some
    by (simp add: addMessage_def generateId_def now_def saveConversations_def Let_def
        idsNonEmpty_def split: prod.splits)
qed

lemma idsNonEmpty_mutateMessage:
  assumes "idsNonEmpty st"
  shows "idsNonEmpty (mutateMessage cid mid f st)"
proof -
  have "list_all (\<lambda>c. c_id c \<noteq> [])
          (updateFirst (\<lambda>c. c_id c = cid)
             (\<lambda>c. c\<lparr>c_messages := ms c, c_updatedAt := t\<rparr>) (conversations st))" for ms t
    using assms by (intro list_all_updateFirst) (auto simp: idsNonEmpty_def)
  then show ?thesis using assms
    by (simp add: mutateMessage_def now_def saveConversations_def Let_def idsNonEmpty_def
        split: option.splits)
qed

lemma idsNonEmpty_first:
  "idsNonEmpty st \<Longrightarrow> conversations st = pre @ c # post \<Longrightarrow> pre @ post \<noteq> []
   \<Longrightarrow> c_id (hd (pre @ post)) \<noteq> []"
  by (cases pre; cases post) (auto simp: idsNonEmpty_def)

subsection \<open>Replaying recorded invocations on other callbacks\<close>

lemma replay_append:
  "replay callbacks (es @ fs) s = replay callbacks fs (replay callbacks es s)"
  by (induction es arbitrary: s) simp_all

lemma mirror_fields [simp]:
  "buffer (mirror callbacks s sent st) = buffer st"
  "isAnswering (mirror callbacks s sent st) = isAnswering st"
  "console (mirror callbacks s sent st) = console st"
  "client (mirror callbacks s sent st) = replay callbacks (client st) s"
  by (simp_all add: mirror_def)

lemma mirror_updates [simp]:
  "(mirror callbacks s sent st)\<lparr>console := c\<rparr> = mirror callbacks s sent (st\<lparr>console := c\<rparr>)"
  "(mirror callbacks s sent st)\<lparr>buffer := b\<rparr> = mirror callbacks s sent (st\<lparr>buffer := b\<rparr>)"
  "(mirror callbacks s sent st)\<lparr>isAnswering := a\<rparr> = mirror callbacks s sent (st\<lparr>isAnswering := a\<rparr>)"
  by (simp_all add: mirror_def)

lemma invoke_quiet:
  assumes "\<forall>f x s. cb = Some f \<longrightarrow> snd (f x s) = None"
  shows "invoke cb x st = (None, st\<lparr>client := call cb x (client st)\<rparr>)"
  using assms by (cases cb) (auto simp: invoke_def call_def case_prod_beta)

lemma mirror_client [simp]:
  "(mirror callbacks s sent st)\<lparr>client := x\<rparr>
     = \<lparr>buffer = buffer st, isAnswering = isAnswering st, console = console st,
        request = sent, client = x\<rparr>"
  by (simp add: mirror_def)

lemma mirror_snoc:
  "mirror callbacks s sent (st\<lparr>client := client st @ [e]\<rparr>)
     = \<lparr>buffer = buffer st, isAnswering = isAnswering st, console = console st,
        request = sent, client = dispatch callbacks e (replay callbacks (client st) s)\<rparr>"
  by (simp add: mirror_def replay_append)

lemma routeFrame_mirror:
  assumes chunk: "\<forall>f x s. onChunk callbacks = Some f \<longrightarrow> snd (f x s) = None"
    and reasoning: "\<forall>f x s. onReasoningChunk callbacks = Some f \<longrightarrow> snd (f x s) = None"
  shows "routeFrame parse callbacks data (mirror callbacks s sent st)
           = (fst (routeFrame parse recorder data st),
              mirror callbacks s sent (snd (routeFrame parse recorder data st)))"
proof -
  have c: "\<And>x st. invoke (onChunk callbacks) x (mirror callbacks s sent st)
             = (None, mirror callbacks s sent (st\<lparr>client := client st @ [ContentChunk x]\<rparr>))"
    using chunk by (simp add: invoke_quiet mirror_snoc)
  have r: "\<And>x st. invoke (onReasoningChunk callbacks) x (mirror callbacks s sent st)
             = (None, mirror callbacks s sent (st\<lparr>client := client st @ [ReasoningChunk x]\<rparr>))"
    using reasoning by (simp add: invoke_quiet mirror_snoc)
  show ?thesis
    by (simp add: routeFrame_def Let_def c r split: option.splits)
qed


lemma processLine_mirror:
  assumes chunk: "\<forall>f x s. onChunk callbacks = Some f \<longrightarrow> snd (f x s) = None"
    and reasoning: "\<forall>f x s. onReasoningChunk callbacks = Some f \<longrightarrow> snd (f x s) = None"
  shows "processLine parse callbacks line (mirror callbacks s sent st)
           = mirror callbacks s sent (processLine parse recorder line st)"
  by (simp add: processLine_def Let_def case_prod_beta routeFrame_mirror [OF chunk reasoning])

lemma processLines_mirror:
  assumes chunk: "\<forall>f x s. onChunk callbacks = Some f \<longrightarrow> snd (f x s) = None"
    and reasoning: "\<forall>f x s. onReasoningChunk callbacks = Some f \<longrightarrow> snd (f x s) = None"
  shows "processLines parse callbacks ls (mirror callbacks s sent st)
           = mirror callbacks s sent (processLines parse recorder ls st)"
  by (induction ls arbitrary: st) (simp_all add: processLine_mirror [OF chunk reasoning])

lemma readLoop_mirror:
  assumes chunk: "\<forall>f x s. onChunk callbacks = Some f \<longrightarrow> snd (f x s) = None"
    and reasoning: "\<forall>f x s. onReasoningChunk callbacks = Some f \<longrightarrow> snd (f x s) = None"
    and complete: "\<forall>f x s. onComplete callbacks = Some f \<longrightarrow> snd (f x s) = None"
  shows "readLoop parse callbacks reads (mirror callbacks s sent st)
           = (fst (readLoop parse recorder reads st),
              mirror callbacks s sent (snd (readLoop parse recorder reads st)))"
proof (induction reads arbitrary: st)
  case Nil
  show ?case using complete by (simp add: invoke_quiet mirror_snoc)
next
  case (Cons r reads)
  obtain wait outcome where r: "r = (wait, outcome)" by (cases r)
  show ?case
    using Cons r
    by (cases outcome) (simp_all add: Let_def processLines_mirror [OF chunk reasoning])
qed

lemma handleFailure_mirror:
  assumes error: "\<forall>f x s. onError callbacks = Some f \<longrightarrow> snd (f x s) = None"
  shows "handleFailure callbacks e (mirror callbacks s sent st)
           = (None, mirror callbacks s sent (snd (handleFailure recorder e st)))"
  using error
  by (simp add: handleFailure_def invoke_quiet mirror_def replay_append split: thrown.splits)

text \<open>
  A call made on callbacks that never throw does to the caller's state what
  replaying the recorded invocations does, and its promise resolves.
\<close>

lemma sendStreamMessage_replay:
  assumes chunk: "\<forall>f x s. onChunk callbacks = Some f \<longrightarrow> snd (f x s) = None"
    and reasoning: "\<forall>f x s. onReasoningChunk callbacks = Some f \<longrightarrow> snd (f x s) = None"
    and complete: "\<forall>f x s. onComplete callbacks = Some f \<longrightarrow> snd (f x s) = None"
    and error: "\<forall>f x s. onError callbacks = Some f \<longrightarrow> snd (f x s) = None"
  shows "fst (sendStreamMessage parse messages callbacks net s) = None
       \<and> client (snd (sendStreamMessage parse messages callbacks net s))
           = replay callbacks (trace parse others net) s"
proof -
  let ?sent = "formatMessages messages"
  have start: "\<lparr>buffer = [], isAnswering = False, console = c, request = ?sent, client = s\<rparr>
        = mirror callbacks s ?sent
            \<lparr>buffer = [], isAnswering = False, console = c,
             request = formatMessages others, client = []\<rparr>" for c
    by (simp add: mirror_def)
  have after: "(case readLoop parse callbacks reads (mirror callbacks s ?sent st) of
                  (None, st1) \<Rightarrow> (None, st1)
                | (Some e, st1) \<Rightarrow> handleFailure callbacks e st1)
             = (None, mirror callbacks s ?sent
                  (snd (case readLoop parse recorder reads st of
                          (None, st1) \<Rightarrow> (None, st1)
                        | (Some e, st1) \<Rightarrow> handleFailure recorder e st1)))" for reads st
    by (cases "readLoop parse recorder reads st")
       (auto simp: readLoop_mirror [OF chunk reasoning complete] handleFailure_mirror [OF error]
          split: option.splits)
  show ?thesis
    unfolding trace_def sendStreamMessage_def Let_def start
    by (simp add: handleFailure_mirror [OF error] after split: sum.splits option.splits)
qed


subsection \<open>The callbacks of sendMessage accumulate the chunks\<close>

lemma call_storeCallbacks [simp]:
  "call (onReasoningChunk (storeCallbacks cid aid)) chunk st = onReasoningChunkHandler cid aid chunk st"
  "call (onChunk (storeCallbacks cid aid)) chunk st = onChunkHandler cid aid chunk st"
  "call (onComplete (storeCallbacks cid aid)) u st = onCompleteHandler cid aid st"
  "call (onError (storeCallbacks cid aid)) error st = onErrorHandler cid aid error st"
  by (simp_all add: storeCallbacks_def call_def)

lemma onChunkHandler_found:
  "findMessage cid aid st = Some m \<Longrightarrow>
   findMessage cid aid (onChunkHandler cid aid chunk st)
     = Some (m\<lparr>m_content := m_content m @ jsToString chunk\<rparr>)"
  by (simp add: onChunkHandler_def updateMessage_def findMessage_mutate)

lemma onReasoningChunkHandler_found:
  "findMessage cid aid st = Some m \<Longrightarrow>
   findMessage cid aid (onReasoningChunkHandler cid aid chunk st)
     = Some (m\<lparr>m_reasoningContent := Some (reasoningText m @ jsToString chunk)\<rparr>)"
  by (simp add: onReasoningChunkHandler_def updateReasoningContent_def findMessage_mutate
      reasoningText_def)

lemma onCompleteHandler_found:
  "findMessage cid aid st = Some m \<Longrightarrow>
   findMessage cid aid (onCompleteHandler cid aid st) = Some (m\<lparr>m_isStreaming := Some False\<rparr>)"
  by (simp add: onCompleteHandler_def findMessage_patch)

lemma onErrorHandler_found:
  "findMessage cid aid st = Some m \<Longrightarrow>
   findMessage cid aid (onErrorHandler cid aid error st)
     = Some (m\<lparr>m_content := diagnostic (err_message error), m_isStreaming := Some False\<rparr>)"
  by (simp add: onErrorHandler_def Let_def findMessage_patch)

lemma replay_found:
  "findMessage cid aid st = Some m \<Longrightarrow>
   \<exists>m'. findMessage cid aid (replay (storeCallbacks cid aid) events st) = Some m'
      \<and> reasoningText m' = reasoningText m @ concat (map jsToString (reasoningPayloads events))
      \<and> (m_reasoningContent m' = None \<longleftrightarrow> m_reasoningContent m = None \<and> reasoningPayloads events = [])
      \<and> (list_ex isFailed events
         \<or> m_content m' = m_content m @ concat (map jsToString (contentPayloads events)))"
proof (induction events arbitrary: st m)
  case Nil
  then show ?case by simp
next
  case (Cons e es)
  show ?case
  proof (cases e)
    case (ReasoningChunk chunk)
    from Cons.IH [OF onReasoningChunkHandler_found [OF Cons.prems, of chunk]]
    show ?thesis using ReasoningChunk by (auto simp: reasoningText_def)
  next
    case (ContentChunk chunk)
    from Cons.IH [OF onChunkHandler_found [OF Cons.prems, of chunk]]
    show ?thesis using ContentChunk by (auto simp: reasoningText_def)
  next
    case Complete
    from Cons.IH [OF onCompleteHandler_found [OF Cons.prems]]
    show ?thesis using Complete by (auto simp: reasoningText_def)
  next
    case (Failed error)
    from Cons.IH [OF onErrorHandler_found [OF Cons.prems, of error]]
    show ?thesis using Failed by (auto simp: reasoningText_def)
  qed
qed

lemma replay_accumulated:
  assumes "findMessage cid aid st = Some m"
    and "m_content m = []" and "m_reasoningContent m = None"
  shows "accumulated events (findMessage cid aid (replay (storeCallbacks cid aid) events st))"
proof -
  from replay_found [OF assms(1), of events] obtain m' where
    m': "findMessage cid aid (replay (storeCallbacks cid aid) events st) = Some m'"
      "reasoningText m' = reasoningText m @ concat (map jsToString (reasoningPayloads events))"
      "m_reasoningContent m' = None \<longleftrightarrow> m_reasoningContent m = None \<and> reasoningPayloads events = []"
      "list_ex isFailed events
         \<or> m_content m' = m_content m @ concat (map jsToString (contentPayloads events))"
    by (elim exE conjE)
  then show ?thesis using assms(2,3)
    by (cases "m_reasoningContent m'") (auto simp: accumulated_def reasoningText_def)
qed

subsection \<open>sendMessage up to the opening of the stream\<close>

lemma find_member: "x \<in> set xs \<Longrightarrow> P x \<Longrightarrow> find P xs \<noteq> None"
  by (induction xs) auto

lemma find_holds: "find P xs = Some x \<Longrightarrow> P x \<and> x \<in> set xs"
  by (induction xs) (auto split: if_splits)

lemma addMessage_keeps:
  "find (\<lambda>c. c_id c = cid) (conversations st) \<noteq> None \<Longrightarrow>
   find (\<lambda>c. c_id c = cid) (conversations (snd (addMessage cid message st))) \<noteq> None"
  by (auto simp: addMessage_def generateId_def now_def saveConversations_def Let_def
      find_updateFirst pushMessage_def split: prod.splits)

lemma sendMessageBegin_found:
  assumes "trim content \<noteq> []"
  shows "\<exists>cid st4. sendMessageBegin content st = Some (cid, st4)
           \<and> find (\<lambda>c. c_id c = cid) (conversations st4) \<noteq> None"
proof -
  let ?user = "\<lparr>i_role = User, i_content = trim content, i_isStreaming = None,
                i_reasoningContent = None\<rparr>"
  let ?pair = "case activeConversation st of Some c \<Rightarrow> (c, st) | None \<Rightarrow> createConversation st"
  have "find (\<lambda>c. c_id c = c_id (fst ?pair)) (conversations (snd ?pair)) \<noteq> None"
  proof (cases "activeConversation st")
    case None
    then show ?thesis using createConversation_result [of st] by simp
  next
    case (Some c)
    then have "c \<in> set (conversations st)"
      by (auto simp: activeConversation_def dest: find_holds)
    then show ?thesis using Some by (simp add: find_member)
  qed
  then have "find (\<lambda>c. c_id c = c_id (fst ?pair))
               (conversations (snd (addMessage (c_id (fst ?pair)) ?user (snd ?pair)))) \<noteq> None"
    by (rule addMessage_keeps)
  then show ?thesis using assms
    by (simp add: sendMessageBegin_def Let_def case_prod_beta)
qed

lemma streamStart_placeholder:
  assumes "trim content \<noteq> []" and "placeholderFresh content st"
  shows "\<exists>cid ai st5. streamStart content st = Some (cid, ai, st5)
           \<and> findMessage cid (m_id ai) st5 = Some ai
           \<and> m_content ai = [] \<and> m_reasoningContent ai = None"
proof -
  from sendMessageBegin_found [OF assms(1), of st] obtain cid st4 c where
    begun: "sendMessageBegin content st = Some (cid, st4)"
    and c: "find (\<lambda>c. c_id c = cid) (conversations st4) = Some c"
    by auto
  have "fst (generateId st4) \<notin> set (map m_id (c_messages c))"
    using assms(2) begun c by (simp add: placeholderFresh_def)
  from addMessage_placeholder [OF c this, of placeholderInput]
  obtain ai where ai: "fst (addMessage cid placeholderInput st4) = Some ai"
      "findMessage cid (m_id ai) (snd (addMessage cid placeholderInput st4)) = Some ai"
      "m_content ai = []" "m_reasoningContent ai = None"
    by (auto simp: placeholderInput_def)
  have "streamStart content st = Some (cid, ai, snd (addMessage cid placeholderInput st4))"
    using begun ai(1) by (simp add: streamStart_def case_prod_beta split: option.splits)
  with ai show ?thesis by simp
qed

lemma sendMessage_stream:
  assumes "streamStart content st = Some (cid, ai, st5)"
  shows "sendMessage parse None net content st
           = replay (storeCallbacks cid (m_id ai)) (trace parse (historySent cid st5) net) st5"
proof -
  have sent: "fst (sendStreamMessage parse messages (storeCallbacks cid (m_id ai)) net st5) = None
      \<and> client (snd (sendStreamMessage parse messages (storeCallbacks cid (m_id ai)) net st5))
          = replay (storeCallbacks cid (m_id ai)) (trace parse messages net) st5" for messages
    by (rule sendStreamMessage_replay) (simp_all add: storeCallbacks_def)
  show ?thesis
    using assms sent [of "historySent cid st5"]
    by (auto simp: sendMessage_def streamStart_def placeholderInput_def historySent_def Let_def
        case_prod_beta split: option.splits prod.splits)
qed

section \<open>Evaluation of the sample inputs\<close>

text \<open>The recorded invocations of the sample streams.\<close>

lemma trace_latchNet:
  "trace sampleParse [] latchNet
     = [ContentChunk (Str ''answer''), ContentChunk (Str ''answer''), Complete]"
  by (simp add: latchNet_def service_defs)

lemma trace_malformedNet:
  "trace sampleParse [] malformedNet
     = [ReasoningChunk (Str ''think''), ContentChunk (Str ''answer''), Complete]"
  by (simp add: malformedNet_def service_defs)

lemma trace_slowNet:
  "trace sampleParse [] slowNet = [ContentChunk (Str ''answer''), Complete]"
  by (simp add: slowNet_def service_defs)

lemma trace_brokenNet: "trace sampleParse [] brokenNet = []"
  by (simp add: brokenNet_def service_defs handleFailure_def)

lemma trace_serverErrorNet:
  "trace sampleParse [] serverErrorNet = [Failed (JsError ''Error'' ''HTTP 500: Internal Server Error'')]"
  by (simp add: serverErrorNet_def service_defs handleFailure_def decimal.simps digitChar_def)

lemma trace_stalledNet:
  "trace sampleParse [] stalledNet = [Failed (JsError ''Error'' timeout_message)]"
  by (simp add: stalledNet_def service_defs handleFailure_def abortError_def)

lemma failure_samples:
  "failure slowNet = None"
  "failure brokenNet = Some (ThrownValue ''boom'')"
  "failure serverErrorNet = Some (ThrownError (JsError ''Error'' ''HTTP 500: Internal Server Error''))"
  "failure stalledNet = Some abortError"
  by (simp_all add: failure_def slowNet_def brokenNet_def serverErrorNet_def stalledNet_def
      okResponse_def ok_def timeoutMs_def decimal.simps digitChar_def)

lemma throwing_slowNet:
  "client (snd (sendStreamMessage sampleParse [] throwingRecorder slowNet []))
     = [ContentChunk (Str ''answer''), Complete, Failed (JsError ''TypeError'' ''render failed'')]"
  by (simp add: slowNet_def throwingRecorder_def handleFailure_def service_defs)

lemma malformedLine_facts:
  "startsWith (trim (''data: '' @ malformedPayload)) ''data: ''"
  "trim (drop 6 (trim (''data: '' @ malformedPayload))) = malformedPayload"
  "malformedPayload \<noteq> ''[DONE]''"
  "sampleParse malformedPayload = None"
  by (simp_all add: service_defs)

lemma processLines_sample:
  "client (processLines sampleParse recorder
     [''data: '' @ reasoningPayload, ''data: '' @ malformedPayload, ''data: '' @ contentPayload]
     freshSession)
     = [ReasoningChunk (Str ''think''), ContentChunk (Str ''answer'')]"
  by (simp add: freshSession_def service_defs)

lemma transferDuration_slowNet: "transferDuration slowNet = 120100"
  by (simp add: transferDuration_def slowNet_def okResponse_def)

lemmas send_defs = sendMessage_def sendMessageBegin_def chatStore_def earlierMessages_def sendFailed_def
  lastTen_def storeCallbacks_def onChunkHandler_def onReasoningChunkHandler_def onCompleteHandler_def
  onErrorHandler_def updateMessage_def updateReasoningContent_def mutateMessage_def patchMessage_def
  findMessage_def

lemma afterImportFailure_eval:
  "isLoading afterImportFailure = False"
  "isStreaming afterImportFailure = False"
  "map (\<lambda>m. (m_id m, m_role m, m_content m, m_isStreaming m))
     (concat (map c_messages (conversations afterImportFailure)))
   = [(''u1'', User, ''Hello'', None), (''a1'', Assistant, ''Hi there'', Some False),
      (''1000-r'', User, ''Why?'', None), (''1003-rr'', Assistant, [], Some True)]"
  "errorLog afterImportFailure = [SendFailed importError]"
  by (simp_all add: afterImportFailure_def send_defs store_defs trim_def isWhiteSpace_def)

lemma afterAnswer_eval:
  "isLoading afterAnswer = False"
  "isStreaming afterAnswer = False"
  "map (\<lambda>m. (m_id m, m_role m, m_content m, m_isStreaming m, m_reasoningContent m))
     (concat (map c_messages (conversations afterAnswer)))
   = [(''u1'', User, ''Hello'', None, None), (''a1'', Assistant, ''Hi there'', Some False, Some ''greet''),
      (''1000-r'', User, ''Why?'', None, None), (''1003-rr'', Assistant, ''answer'', Some False, None)]"
  by (simp_all add: afterAnswer_def send_defs store_defs slowNet_def service_defs)

lemma chatStore_facts:
  "roleInvariant chatStore"
  "inputOk plainUserInput"
  "targetIsAssistant ''a'' ''a1'' chatStore"
  "storedOk chatStore"
  "placeholderFresh ''Why?'' chatStore"
  by (simp_all add: roleInvariant_def conversationsOk_def messageOk_def inputOk_def plainUserInput_def
      targetIsAssistant_def storedOk_def placeholderFresh_def send_defs store_defs trim_def isWhiteSpace_def)

lemma chatStore_broken:
  "\<not> roleInvariant (snd (addMessage ''a'' streamingUserInput chatStore))"
  "\<not> roleInvariant (updateReasoningContent ''a'' ''u1'' ''thought'' chatStore)"
  "\<not> inputOk streamingUserInput"
  "\<not> targetIsAssistant ''a'' ''u1'' chatStore"
  by (simp_all add: roleInvariant_def conversationsOk_def messageOk_def inputOk_def streamingUserInput_def
      targetIsAssistant_def send_defs store_defs)

text \<open>
  The latch stream on callbacks whose \<open>onChunk\<close> throws, and \<open>sendMessage('Why?')\<close> on
  the stream of two reasoning and two content frames.
\<close>

lemma latch_throwOnContent:
  "client (snd (sendStreamMessage sampleParse [] (recorderWith throwOnContent) latchNet []))
     = [ContentChunk (Str ''answer''), ContentChunk (Str ''answer''), Complete]"
  "console (snd (sendStreamMessage sampleParse [] (recorderWith throwOnContent) latchNet []))
     = [AnsweringStarted, SseParseFailure contentPayload, SseParseFailure contentPayload]"
  by (simp_all add: latchNet_def throwOnContent_def recorderWith_def sendStreamMessage_def
      processLine_def routeFrame_def trim_def isWhiteSpace_def startsWith_def frame_def
      okResponse_def ok_def timeoutMs_def getProp_def truthy_def nullish_def optionalLength_def
      lengthNum_def Let_def formatMessages_def invoke_def sampleParse_def reasoningPayload_def
      contentPayload_def)

lemma trace_thinkingNet:
  "trace sampleParse messages thinkingNet
     = [ReasoningChunk (Str ''think''), ReasoningChunk (Str ''think''),
        ContentChunk (Str ''answer''), ContentChunk (Str ''answer''), Complete]"
  by (simp add: thinkingNet_def service_defs)

lemma afterThinking_eval:
  "map (\<lambda>m. (m_id m, m_role m, m_content m, m_isStreaming m, m_reasoningContent m))
     (concat (map c_messages (conversations afterThinking)))
   = [(''u1'', User, ''Hello'', None, None), (''a1'', Assistant, ''Hi there'', Some False, Some ''greet''),
      (''1000-r'', User, ''Why?'', None, None),
      (''1003-rr'', Assistant, ''answeranswer'', Some False, Some ''thinkthink'')]"
  by (simp add: afterThinking_def send_defs store_defs thinkingNet_def service_defs)

lemma streamStart_eval:
  "trim ''Why?'' \<noteq> []"
  "map_option (\<lambda>(cid, ai, st5). (cid, m_id ai, m_content ai, m_reasoningContent ai))
     (streamStart ''Why?'' chatStore) = Some (''a'', ''1003-rr'', [], None)"
  "map_option (\<lambda>(cid, ai, st5).
       map_option (\<lambda>m. (m_content m, m_reasoningContent m))
         (findMessage cid (m_id ai) (replay (storeCallbacks cid (m_id ai)) alternating st5)))
     (streamStart ''Why?'' chatStore) = Some (Some (''answer'', Some ''think!''))"
  by (simp_all add: streamStart_def placeholderInput_def alternating_def call_def send_defs store_defs
      trim_def isWhiteSpace_def)

section \<open>Verified properties\<close>

text \<open>
  C10. For every id, known or not, \<open>switchConversation\<close> sets \<open>activeConversationId\<close> to
  that id and changes nothing else: conversations, messages, flags and \<open>localStorage\<close>
  are as before and no \<open>setItem\<close> call is made. When no conversation has the id, the
  derived \<open>activeConversation\<close> is null.
\<close>

theorem switchConversation_frame:
  "switchConversation i st = st\<lparr>activeConversationId := Some i\<rparr>
   \<and> activeConversationId (switchConversation i st) = Some i
   \<and> conversations (switchConversation i st) = conversations st
   \<and> setItemCalls (switchConversation i st) = setItemCalls st
   \<and> storedConversations (switchConversation i st) = storedConversations st
   \<and> storedActiveId (switchConversation i st) = storedActiveId st
   \<and> isLoading (switchConversation i st) = isLoading st
   \<and> isStreaming (switchConversation i st) = isStreaming st
   \<and> (find (\<lambda>c. c_id c = i) (conversations st) = None
        \<longrightarrow> activeConversation (switchConversation i st) = None)"
  by (simp add: switchConversation_def activeConversation_def)

theorem switchConversation_frame_witness:
  "find (\<lambda>c. c_id c = ''no-such-id'') (conversations (demoStore [emptyConversation ''a''] (Some ''a''))) = None
   \<and> conversations (switchConversation ''no-such-id'' (demoStore [emptyConversation ''a''] (Some ''a'')))
       = [emptyConversation ''a'']
   \<and> activeConversationId (switchConversation ''no-such-id'' (demoStore [emptyConversation ''a''] (Some ''a'')))
       = Some ''no-such-id''
   \<and> activeConversation (switchConversation ''no-such-id'' (demoStore [emptyConversation ''a''] (Some ''a'')))
       = None"
  using switchConversation_frame [of "''no-such-id''" "demoStore [emptyConversation ''a''] (Some ''a'')"]
  by (simp add: store_defs)

text \<open>
  C8. When \<open>addMessage\<close> appends the first message of a conversation and its role is
  \<open>user\<close>, the title of that conversation becomes the first 20 characters of the
  content, followed by \<open>...\<close> exactly when the content is longer than 20 characters.
\<close>

theorem addMessage_title:
  assumes "find (\<lambda>c. c_id c = cid) (conversations st) = Some c"
    and "c_messages c = []"
    and "i_role msg = User"
  shows "map_option c_title (find (\<lambda>c. c_id c = cid) (conversations (snd (addMessage cid msg st))))
           = Some (take 20 (i_content msg) @ (if length (i_content msg) > 20 then ''...'' else []))"
  using assms
  by (simp add: addMessage_def generateId_def now_def saveConversations_def Let_def
      find_updateFirst pushMessage_def deriveTitle_def split: prod.splits)

theorem addMessage_title_witness:
  "find (\<lambda>c. c_id c = ''a'') (conversations (demoStore [emptyConversation ''a''] (Some ''a'')))
     = Some (emptyConversation ''a'')
   \<and> c_messages (emptyConversation ''a'') = []
   \<and> map_option c_title (find (\<lambda>c. c_id c = ''a'') (conversations (snd (addMessage ''a''
         \<lparr>i_role = User, i_content = ''Hi'', i_isStreaming = None, i_reasoningContent = None\<rparr>
         (demoStore [emptyConversation ''a''] (Some ''a'')))))) = Some ''Hi''
   \<and> map_option c_title (find (\<lambda>c. c_id c = ''a'') (conversations (snd (addMessage ''a''
         \<lparr>i_role = User,
          i_content = ''Hello world, this is a long message exceeding twenty chars'',
          i_isStreaming = None, i_reasoningContent = None\<rparr>
         (demoStore [emptyConversation ''a''] (Some ''a'')))))) = Some ''Hello world, this is...''"
  using addMessage_title [of "''a''" "demoStore [emptyConversation ''a''] (Some ''a'')"
      "emptyConversation ''a''"
      "\<lparr>i_role = User, i_content = ''Hi'', i_isStreaming = None, i_reasoningContent = None\<rparr>"]
    addMessage_title [of "''a''" "demoStore [emptyConversation ''a''] (Some ''a'')"
      "emptyConversation ''a''"
      "\<lparr>i_role = User,
        i_content = ''Hello world, this is a long message exceeding twenty chars'',
        i_isStreaming = None, i_reasoningContent = None\<rparr>"]
  by (simp add: initialStore_def demoStore_def emptyConversation_def)

text \<open>
  C7. \<open>deleteConversation i\<close> removes the (first) conversation whose id is \<open>i\<close>; if it was
  the active one and others remain, the first remaining conversation becomes active
  (ids being non-empty, as every generated id is); if it was the active one and none
  remains, exactly one fresh conversation exists afterwards and is active; deleting a
  conversation that is not the active one leaves \<open>activeConversationId\<close> as it was.
\<close>

theorem deleteConversation_correct:
  "(activeConversationId st \<noteq> Some i \<longrightarrow>
      activeConversationId (deleteConversation i st) = activeConversationId st)
   \<and> (conversations st = pre @ c # post \<and> c_id c = i \<and> (\<forall>x\<in>set pre. c_id x \<noteq> i) \<longrightarrow>
        (distinct (map c_id (conversations st)) \<longrightarrow> (\<forall>x\<in>set (pre @ post). c_id x \<noteq> i))
      \<and> (activeConversationId st \<noteq> Some i \<longrightarrow>
            conversations (deleteConversation i st) = pre @ post)
      \<and> (activeConversationId st = Some i \<and> pre @ post \<noteq> [] \<longrightarrow>
            conversations (deleteConversation i st) = pre @ post
          \<and> (c_id (hd (pre @ post)) \<noteq> [] \<longrightarrow>
                activeConversationId (deleteConversation i st) = Some (c_id (hd (pre @ post)))
              \<and> activeConversation (deleteConversation i st) = Some (hd (pre @ post))))
      \<and> (activeConversationId st = Some i \<and> pre @ post = [] \<longrightarrow>
            conversations (deleteConversation i st)
              = [fst (createConversation (st\<lparr>conversations := []\<rparr>))]
          \<and> c_messages (fst (createConversation (st\<lparr>conversations := []\<rparr>))) = []
          \<and> c_id (fst (createConversation (st\<lparr>conversations := []\<rparr>))) \<noteq> []
          \<and> activeConversationId (deleteConversation i st)
              = Some (c_id (fst (createConversation (st\<lparr>conversations := []\<rparr>))))
          \<and> activeConversation (deleteConversation i st)
              = Some (fst (createConversation (st\<lparr>conversations := []\<rparr>)))))"
proof (intro conjI impI)
  show "activeConversationId (deleteConversation i st) = activeConversationId st"
    if "activeConversationId st \<noteq> Some i"
    using that
    by (simp add: deleteConversation_def saveConversations_def Let_def split: option.splits)
next
  assume split: "conversations st = pre @ c # post \<and> c_id c = i \<and> (\<forall>x\<in>set pre. c_id x \<noteq> i)"
  then have idx: "findIndex (\<lambda>c. c_id c = i) (conversations st) = Some (length pre)"
    by (simp add: findIndex_first)
  have rest: "splice1 (length pre) (conversations st) = pre @ post"
    using split by (simp add: splice1_middle)
  show "\<forall>x\<in>set (pre @ post). c_id x \<noteq> i" if "distinct (map c_id (conversations st))"
    using that split by (auto simp: image_iff)
  show "conversations (deleteConversation i st) = pre @ post"
    if "activeConversationId st \<noteq> Some i"
    using that idx rest by (simp add: deleteConversation_def saveConversations_def Let_def)
  {
    assume act: "activeConversationId st = Some i \<and> pre @ post \<noteq> []"
    then have del: "deleteConversation i st =
        saveConversations (st\<lparr>conversations := pre @ post,
                              activeConversationId := firstIdOrNull (pre @ post)\<rparr>)"
      using idx rest by (simp add: deleteConversation_def Let_def)
    show "conversations (deleteConversation i st) = pre @ post"
      by (simp add: del saveConversations_def)
    assume ne: "c_id (hd (pre @ post)) \<noteq> []"
    with act have first: "firstIdOrNull (pre @ post) = Some (c_id (hd (pre @ post)))"
      by (cases "pre @ post") (simp_all add: firstIdOrNull_def)
    show "activeConversationId (deleteConversation i st) = Some (c_id (hd (pre @ post)))"
      by (simp add: del saveConversations_def first)
    show "activeConversation (deleteConversation i st) = Some (hd (pre @ post))"
      using act by (simp add: del saveConversations_def first activeConversation_def find_hd)
  }
  {
    assume act: "activeConversationId st = Some i \<and> pre @ post = []"
    let ?e = "st\<lparr>conversations := []\<rparr>"
    have del: "deleteConversation i st = saveConversations (snd (createConversation ?e))"
      using act idx rest by (simp add: deleteConversation_def Let_def)
    show "conversations (deleteConversation i st) = [fst (createConversation ?e)]"
      by (simp add: del saveConversations_def createConversation_result)
    show "c_messages (fst (createConversation ?e)) = []"
      by (simp add: createConversation_result)
    show "c_id (fst (createConversation ?e)) \<noteq> []"
      by (simp add: createConversation_result generateId_nonempty)
    show "activeConversationId (deleteConversation i st) = Some (c_id (fst (createConversation ?e)))"
      by (simp add: del saveConversations_def createConversation_result)
    show "activeConversation (deleteConversation i st) = Some (fst (createConversation ?e))"
      by (simp add: del saveConversations_def createConversation_result activeConversation_def)
  }
qed

theorem deleteConversation_correct_witness:
  "activeConversationId (demoStore [emptyConversation ''a'', emptyConversation ''b''] (Some ''a'')) = Some ''a''
   \<and> conversations (demoStore [emptyConversation ''a'', emptyConversation ''b''] (Some ''a''))
       = [] @ emptyConversation ''a'' # [emptyConversation ''b'']
   \<and> c_id (emptyConversation ''a'') = ''a''
   \<and> [] @ [emptyConversation ''b''] \<noteq> []
   \<and> c_id (hd ([] @ [emptyConversation ''b''])) \<noteq> []
   \<and> conversations (deleteConversation ''a''
         (demoStore [emptyConversation ''a'', emptyConversation ''b''] (Some ''a'')))
       = [emptyConversation ''b'']
   \<and> activeConversationId (deleteConversation ''a''
         (demoStore [emptyConversation ''a'', emptyConversation ''b''] (Some ''a''))) = Some ''b''
   \<and> activeConversationId (demoStore [emptyConversation ''a'', emptyConversation ''b''] (Some ''a'')) \<noteq> Some ''b''
   \<and> activeConversationId (deleteConversation ''b''
         (demoStore [emptyConversation ''a'', emptyConversation ''b''] (Some ''a''))) = Some ''a''
   \<and> map c_id (conversations (deleteConversation ''a'' (demoStore [emptyConversation ''a''] (Some ''a''))))
       = [''1000-r'']
   \<and> activeConversationId (deleteConversation ''a'' (demoStore [emptyConversation ''a''] (Some ''a'')))
       = Some ''1000-r''"
  using deleteConversation_correct [of "demoStore [emptyConversation ''a'', emptyConversation ''b''] (Some ''a'')"
      "''a''" "[]" "emptyConversation ''a''" "[emptyConversation ''b'']"]
    deleteConversation_correct [of "demoStore [emptyConversation ''a'', emptyConversation ''b''] (Some ''a'')"
      "''b''" "[emptyConversation ''a'']" "emptyConversation ''b''" "[]"]
    deleteConversation_correct [of "demoStore [emptyConversation ''a''] (Some ''a'')"
      "''a''" "[]" "emptyConversation ''a''" "[]"]
  by (simp add: store_defs deleteConversation_def splice1_def firstIdOrNull_def)

text \<open>
  C1. Within one call of \<open>sendStreamMessage\<close>, once \<open>onChunk\<close> has been invoked no later
  frame makes \<open>onReasoningChunk\<close> be invoked, whatever the frames that follow carry and
  whether the callbacks return or throw: the invocations made on callbacks that throw
  as an arbitrary function \<open>decide\<close> of the invocations so far says never show a
  reasoning chunk after a content chunk; in particular on callbacks that never throw.
\<close>

theorem phase_latch:
  "noReasoningAfterContent
     (client (snd (sendStreamMessage parse messages (recorderWith decide) net [])))
   \<and> noReasoningAfterContent (trace parse messages net)"
proof -
  have init: "\<And>c. latchInv \<lparr>buffer = [], isAnswering = False, console = c,
               request = formatMessages messages, client = ([] :: Event list)\<rparr>"
    by (simp add: latchInv_def)
  have "\<And>decide. latchInv (snd (sendStreamMessage parse messages (recorderWith decide) net []))"
    by (simp add: sendStreamMessage_def Let_def handleFailure_latch afterLoop_latch init
        split: sum.splits option.splits)
  then show ?thesis by (simp add: trace_def latchInv_def recorder_recorderWith)
qed

theorem phase_latch_witness:
  "client (snd (sendStreamMessage sampleParse [] (recorderWith throwOnContent) latchNet []))
     = [ContentChunk (Str ''answer''), ContentChunk (Str ''answer''), Complete]
   \<and> console (snd (sendStreamMessage sampleParse [] (recorderWith throwOnContent) latchNet []))
     = [AnsweringStarted, SseParseFailure contentPayload, SseParseFailure contentPayload]
   \<and> noReasoningAfterContent
       (client (snd (sendStreamMessage sampleParse [] (recorderWith throwOnContent) latchNet [])))
   \<and> noReasoningAfterContent (trace sampleParse [] latchNet)"
  using phase_latch [of sampleParse "[]" throwOnContent latchNet] latch_throwOnContent
  by (intro conjI) simp_all

text \<open>
  C9. A data frame whose payload \<open>JSON.parse\<close> rejects is recovered locally: the line
  only adds the parse failure to the console output. No callback runs (the caller's
  state is untouched, so neither \<open>onError\<close> nor \<open>onComplete\<close> fires because of it), the
  buffer and the phase flag are as before, the lines before it have been processed
  and the lines after it are processed next.
\<close>

theorem malformed_frame_recovered:
  assumes "startsWith (trim line) ''data: ''"
    and "trim (drop 6 (trim line)) \<noteq> ''[DONE]''"
    and "parse (trim (drop 6 (trim line))) = None"
  shows "processLine parse callbacks line st
           = st\<lparr>console := console st @ [SseParseFailure (trim (drop 6 (trim line)))]\<rparr>
         \<and> processLines parse callbacks (before @ line # after) st
           = processLines parse callbacks after
               ((processLines parse callbacks before st)
                  \<lparr>console := console (processLines parse callbacks before st)
                                @ [SseParseFailure (trim (drop 6 (trim line)))]\<rparr>)"
proof -
  have one: "\<And>s. processLine parse callbacks line s
           = s\<lparr>console := console s @ [SseParseFailure (trim (drop 6 (trim line)))]\<rparr>"
    using assms startsWith_data [OF assms(1)]
    by (simp add: processLine_def routeFrame_def Let_def)
  show ?thesis
    by (simp add: one processLines_append)
qed

theorem malformed_frame_recovered_witness:
  "startsWith (trim (''data: '' @ malformedPayload)) ''data: ''
   \<and> trim (drop 6 (trim (''data: '' @ malformedPayload))) \<noteq> ''[DONE]''
   \<and> sampleParse (trim (drop 6 (trim (''data: '' @ malformedPayload)))) = None
   \<and> processLine sampleParse recorder (''data: '' @ malformedPayload) freshSession
       = freshSession\<lparr>console := console freshSession @ [SseParseFailure malformedPayload]\<rparr>
   \<and> client (processLines sampleParse recorder
        [''data: '' @ reasoningPayload, ''data: '' @ malformedPayload, ''data: '' @ contentPayload]
        freshSession)
       = [ReasoningChunk (Str ''think''), ContentChunk (Str ''answer'')]
   \<and> trace sampleParse [] malformedNet
       = [ReasoningChunk (Str ''think''), ContentChunk (Str ''answer''), Complete]"
proof -
  have h1: "startsWith (trim (''data: '' @ malformedPayload)) ''data: ''"
    and h2: "trim (drop 6 (trim (''data: '' @ malformedPayload))) \<noteq> ''[DONE]''"
    and h3: "sampleParse (trim (drop 6 (trim (''data: '' @ malformedPayload)))) = None"
    by (simp_all only: malformedLine_facts not_False_eq_True)
  from malformed_frame_recovered [of "''data: '' @ malformedPayload" sampleParse recorder
      freshSession "[]" "[]", OF h1 h2 h3]
  have "processLine sampleParse recorder (''data: '' @ malformedPayload) freshSession
       = freshSession\<lparr>console := console freshSession @ [SseParseFailure malformedPayload]\<rparr>"
    by (simp only: malformedLine_facts)
  with h1 h2 h3 processLines_sample trace_malformedNet show ?thesis
    by (intro conjI)
qed

text \<open>
  C3, as amended. With callbacks that return normally, the invocations of one call are
  some chunk callbacks followed by at most one terminal callback, which is the last
  invocation: \<open>onComplete\<close> alone when nothing failed; \<open>onError\<close> alone, once, when the
  failure is an \<open>Error\<close> instance (with the timeout error for an abort); none at all
  when the thrown value is not an \<open>Error\<close> instance.
\<close>

theorem terminal_callbacks:
  "\<exists>chunks. list_all (\<lambda>e. \<not> isTerminal e) chunks
     \<and> trace parse messages net = chunks @ expectedTerminal (failure net)"
proof -
  have start: "list_all (\<lambda>e. \<not> isTerminal e)
                 (client \<lparr>buffer = [], isAnswering = False, console = [],
                          request = formatMessages messages, client = ([] :: Event list)\<rparr>)"
    by simp
  show ?thesis
    using afterLoop_outcome [OF start, of parse]
    by (simp add: trace_def sendStreamMessage_def failure_def Let_def handleFailure_recorder
        split: sum.splits option.splits)
qed

theorem terminal_callbacks_witness:
  "(\<exists>chunks. list_all (\<lambda>e. \<not> isTerminal e) chunks
      \<and> trace sampleParse [] slowNet = chunks @ expectedTerminal (failure slowNet))
   \<and> failure slowNet = None
   \<and> trace sampleParse [] slowNet = [ContentChunk (Str ''answer''), Complete]
   \<and> failure serverErrorNet = Some (ThrownError (JsError ''Error'' ''HTTP 500: Internal Server Error''))
   \<and> trace sampleParse [] serverErrorNet = [Failed (JsError ''Error'' ''HTTP 500: Internal Server Error'')]
   \<and> failure stalledNet = Some abortError
   \<and> trace sampleParse [] stalledNet = [Failed (JsError ''Error'' timeout_message)]"
  using terminal_callbacks [of sampleParse "[]" slowNet]
    failure_samples trace_slowNet trace_serverErrorNet trace_stalledNet
  by (intro conjI)

text \<open>
  C3, as stated, fails: a read that rejects with a value that is not an \<open>Error\<close>
  instance is a failure path on which no terminal callback is invoked; and an
  \<open>onComplete\<close> that throws is followed by \<open>onError\<close>, so both are invoked.
\<close>

theorem terminal_callbacks_counterexample:
  "failure brokenNet = Some (ThrownValue ''boom'')
   \<and> trace sampleParse [] brokenNet = []
   \<and> client (snd (sendStreamMessage sampleParse [] throwingRecorder slowNet []))
       = [ContentChunk (Str ''answer''), Complete, Failed (JsError ''TypeError'' ''render failed'')]"
  using failure_samples trace_brokenNet throwing_slowNet by (intro conjI)

text \<open>
  C4, as amended. The timer is set to 60000 ms and covers the wait for \<open>fetch\<close> only:
  when \<open>fetch\<close> has not settled by then the request is aborted and the only callback
  invoked is \<open>onError\<close>, with the timeout error; the time the reads of the body take has
  no influence on what the call does.
\<close>

theorem timeout_covers_fetch_only:
  "timeoutMs = 60000
   \<and> (timeoutMs \<le> fetchLatency net \<longrightarrow>
        sendStreamMessage parse messages recorder net []
          = (None, \<lparr>buffer = [], isAnswering = False,
                    console = [TimeoutWarning, RequestAborted],
                    request = formatMessages messages,
                    client = [Failed (JsError ''Error'' timeout_message)]\<rparr>))
   \<and> sendStreamMessage parse messages callbacks (retime f net) s
        = sendStreamMessage parse messages callbacks net s"
  by (simp add: timeoutMs_def sendStreamMessage_def retime_def Let_def handleFailure_recorder
      abortError_def expectedTerminal_def ok_def readLoop_retime split: sum.splits option.splits)

theorem timeout_covers_fetch_only_witness:
  "timeoutMs \<le> fetchLatency stalledNet
   \<and> sendStreamMessage sampleParse [] recorder stalledNet []
        = (None, \<lparr>buffer = [], isAnswering = False,
                  console = [TimeoutWarning, RequestAborted],
                  request = formatMessages [],
                  client = [Failed (JsError ''Error'' timeout_message)]\<rparr>)
   \<and> sendStreamMessage sampleParse [] recorder (retime (\<lambda>_. 0) slowNet) []
        = sendStreamMessage sampleParse [] recorder slowNet []"
proof -
  have h: "timeoutMs \<le> fetchLatency stalledNet"
    by (simp add: stalledNet_def timeoutMs_def)
  from timeout_covers_fetch_only [of stalledNet sampleParse "[]" recorder "\<lambda>_. 0" "[]"] h
  have a: "sendStreamMessage sampleParse [] recorder stalledNet []
        = (None, \<lparr>buffer = [], isAnswering = False,
                  console = [TimeoutWarning, RequestAborted],
                  request = formatMessages [],
                  client = [Failed (JsError ''Error'' timeout_message)]\<rparr>)"
    by blast
  from timeout_covers_fetch_only [of slowNet sampleParse "[]" recorder "\<lambda>_. 0" "[]"]
  have b: "sendStreamMessage sampleParse [] recorder (retime (\<lambda>_. 0) slowNet) []
        = sendStreamMessage sampleParse [] recorder slowNet []"
    by blast
  from h a b show ?thesis by (intro conjI)
qed

text \<open>
  C4, as stated, fails: a transfer whose headers arrive after 100 ms and whose first
  read takes two minutes lasts longer than the timeout, yet it is not cancelled and
  \<open>onError\<close> is not invoked; the stream is delivered and completes.
\<close>

theorem timeout_counterexample:
  "timeoutMs < transferDuration slowNet
   \<and> trace sampleParse [] slowNet = [ContentChunk (Str ''answer''), Complete]"
  by (simp add: trace_slowNet transferDuration_slowNet timeoutMs_def)

text \<open>
  C6. \<open>sendMessage\<close> on a non-blank text, the id generated for the placeholder being new
  in the conversation, reaches the opening of the stream with an empty placeholder, and
  from there its result is what the callbacks it passes to the service make of the
  invocations the service performs. For every sequence of invocations handed to these
  callbacks the assistant message then holds, as its reasoning text, the concatenation
  of the reasoning chunks in arrival order (absent when there was none) and, as its
  content, the concatenation of the content chunks in arrival order, the content being
  overwritten only by \<open>onError\<close>. So it is for the message \<open>sendMessage\<close> leaves behind,
  with the chunks the service delivered.
\<close>

theorem chunks_concatenated:
  assumes "trim content \<noteq> []" and "placeholderFresh content st"
  shows "\<exists>cid ai st5.
           streamStart content st = Some (cid, ai, st5)
         \<and> sendMessage parse None net content st
             = replay (storeCallbacks cid (m_id ai)) (trace parse (historySent cid st5) net) st5
         \<and> accumulated (trace parse (historySent cid st5) net)
             (findMessage cid (m_id ai) (sendMessage parse None net content st))
         \<and> (\<forall>events. accumulated events
               (findMessage cid (m_id ai) (replay (storeCallbacks cid (m_id ai)) events st5)))"
proof -
  from streamStart_placeholder [OF assms] obtain cid ai st5 where
    start: "streamStart content st = Some (cid, ai, st5)"
    and found: "findMessage cid (m_id ai) st5 = Some ai"
    and empty: "m_content ai = []" "m_reasoningContent ai = None"
    by (elim exE conjE)
  have all: "accumulated events
               (findMessage cid (m_id ai) (replay (storeCallbacks cid (m_id ai)) events st5))"
    for events
    using found empty by (rule replay_accumulated)
  have sent: "sendMessage parse None net content st
      = replay (storeCallbacks cid (m_id ai)) (trace parse (historySent cid st5) net) st5"
    using start by (rule sendMessage_stream)
  show ?thesis
    using start sent all by (intro exI conjI allI) simp_all
qed

theorem chunks_concatenated_witness:
  "trim ''Why?'' \<noteq> []
   \<and> placeholderFresh ''Why?'' chatStore
   \<and> map_option (\<lambda>(cid, ai, st5). (cid, m_id ai, m_content ai, m_reasoningContent ai))
        (streamStart ''Why?'' chatStore) = Some (''a'', ''1003-rr'', [], None)
   \<and> trace sampleParse [] thinkingNet
        = [ReasoningChunk (Str ''think''), ReasoningChunk (Str ''think''),
           ContentChunk (Str ''answer''), ContentChunk (Str ''answer''), Complete]
   \<and> map (\<lambda>m. (m_id m, m_role m, m_content m, m_isStreaming m, m_reasoningContent m))
        (concat (map c_messages (conversations afterThinking)))
        = [(''u1'', User, ''Hello'', None, None),
           (''a1'', Assistant, ''Hi there'', Some False, Some ''greet''),
           (''1000-r'', User, ''Why?'', None, None),
           (''1003-rr'', Assistant, ''answeranswer'', Some False, Some ''thinkthink'')]
   \<and> map_option (\<lambda>(cid, ai, st5).
          map_option (\<lambda>m. (m_content m, m_reasoningContent m))
            (findMessage cid (m_id ai) (replay (storeCallbacks cid (m_id ai)) alternating st5)))
        (streamStart ''Why?'' chatStore) = Some (Some (''answer'', Some ''think!''))
   \<and> (\<exists>cid ai st5.
          streamStart ''Why?'' chatStore = Some (cid, ai, st5)
        \<and> afterThinking
            = replay (storeCallbacks cid (m_id ai))
                (trace sampleParse (historySent cid st5) thinkingNet) st5
        \<and> accumulated (trace sampleParse (historySent cid st5) thinkingNet)
            (findMessage cid (m_id ai) afterThinking)
        \<and> accumulated alternating
            (findMessage cid (m_id ai) (replay (storeCallbacks cid (m_id ai)) alternating st5)))"
proof -
  from chunks_concatenated [OF streamStart_eval(1) chatStore_facts(5), of sampleParse thinkingNet]
  obtain cid ai st5 where
    start: "streamStart ''Why?'' chatStore = Some (cid, ai, st5)"
    and sent: "sendMessage sampleParse None thinkingNet ''Why?'' chatStore
        = replay (storeCallbacks cid (m_id ai))
            (trace sampleParse (historySent cid st5) thinkingNet) st5"
    and final: "accumulated (trace sampleParse (historySent cid st5) thinkingNet)
        (findMessage cid (m_id ai) (sendMessage sampleParse None thinkingNet ''Why?'' chatStore))"
    and every: "\<forall>events. accumulated events
        (findMessage cid (m_id ai) (replay (storeCallbacks cid (m_id ai)) events st5))"
    by (elim exE conjE)
  have "\<exists>cid ai st5.
          streamStart ''Why?'' chatStore = Some (cid, ai, st5)
        \<and> afterThinking
            = replay (storeCallbacks cid (m_id ai))
                (trace sampleParse (historySent cid st5) thinkingNet) st5
        \<and> accumulated (trace sampleParse (historySent cid st5) thinkingNet)
            (findMessage cid (m_id ai) afterThinking)
        \<and> accumulated alternating
            (findMessage cid (m_id ai) (replay (storeCallbacks cid (m_id ai)) alternating st5))"
    unfolding afterThinking_def
    using start sent final every [THEN spec, of alternating]
    by (intro exI conjI)
  with streamStart_eval chatStore_facts(5) trace_thinkingNet [of "[]"] afterThinking_eval
  show ?thesis
    by (intro conjI)
qed

text \<open>
  C5, as amended. The invariant (a user message has no \<open>reasoningContent\<close> and is not
  streaming) is preserved by \<open>createConversation\<close>, \<open>deleteConversation\<close>,
  \<open>switchConversation\<close> and \<open>updateMessage\<close>; by \<open>addMessage\<close> when the message handed in
  satisfies it; by \<open>updateReasoningContent\<close> when the message it finds is an assistant
  message; by \<open>loadConversations\<close> when the persisted conversations satisfy it; and by
  \<open>sendMessage\<close> when the id generated for the placeholder is not already the id of a
  message of the conversation.
\<close>

theorem roleInvariant_preserved:
  assumes "roleInvariant st"
  shows "roleInvariant (snd (createConversation st))
       \<and> roleInvariant (deleteConversation i st)
       \<and> roleInvariant (switchConversation i st)
       \<and> roleInvariant (updateMessage cid mid newContent st)
       \<and> (inputOk message \<longrightarrow> roleInvariant (snd (addMessage cid message st)))
       \<and> (targetIsAssistant cid mid st \<longrightarrow>
             roleInvariant (updateReasoningContent cid mid newReasoning st))
       \<and> (storedOk st \<longrightarrow> roleInvariant (loadConversations st))
       \<and> (placeholderFresh content st \<longrightarrow>
             roleInvariant (sendMessage parse importRejection net content st))"
proof (intro conjI impI)
  show "roleInvariant (snd (createConversation st))"
    using assms by (rule roleInvariant_createConversation)
  show "roleInvariant (deleteConversation i st)"
    using assms by (rule roleInvariant_deleteConversation)
  show "roleInvariant (switchConversation i st)"
    using assms by (simp add: switchConversation_def)
  show "roleInvariant (updateMessage cid mid newContent st)"
    unfolding updateMessage_def using assms by (rule roleInvariant_mutate) simp
  show "roleInvariant (snd (addMessage cid message st))" if "inputOk message"
    using assms that by (rule roleInvariant_addMessage)
  show "roleInvariant (updateReasoningContent cid mid newReasoning st)"
    if "targetIsAssistant cid mid st"
    unfolding updateReasoningContent_def using assms
    by (rule roleInvariant_mutate) (use that in \<open>simp add: targetIsAssistant_def messageOk_def\<close>)
  show "roleInvariant (loadConversations st)" if "storedOk st"
    using assms that by (rule roleInvariant_loadConversations)
  show "roleInvariant (sendMessage parse importRejection net content st)"
    if "placeholderFresh content st"
    using assms that by (rule sendMessage_roleInvariant)
qed

theorem roleInvariant_preserved_witness:
  "roleInvariant chatStore
   \<and> inputOk plainUserInput
   \<and> targetIsAssistant ''a'' ''a1'' chatStore
   \<and> storedOk chatStore
   \<and> placeholderFresh ''Why?'' chatStore
   \<and> roleInvariant (snd (createConversation chatStore))
   \<and> roleInvariant (deleteConversation ''a'' chatStore)
   \<and> roleInvariant (switchConversation ''b'' chatStore)
   \<and> roleInvariant (updateMessage ''a'' ''u1'' ''Hello!'' chatStore)
   \<and> roleInvariant (snd (addMessage ''a'' plainUserInput chatStore))
   \<and> roleInvariant (updateReasoningContent ''a'' ''a1'' ''greeting'' chatStore)
   \<and> roleInvariant (loadConversations chatStore)
   \<and> roleInvariant afterAnswer
   \<and> map (\<lambda>m. (m_id m, m_role m, m_content m, m_isStreaming m, m_reasoningContent m))
        (concat (map c_messages (conversations afterAnswer)))
       = [(''u1'', User, ''Hello'', None, None),
          (''a1'', Assistant, ''Hi there'', Some False, Some ''greet''),
          (''1000-r'', User, ''Why?'', None, None),
          (''1003-rr'', Assistant, ''answer'', Some False, None)]"
  using roleInvariant_preserved [OF chatStore_facts(1), of "''a''" "''a''" "''u1''" "''Hello!''"
      plainUserInput "''greeting''" "''Why?''" sampleParse None slowNet]
    roleInvariant_preserved [OF chatStore_facts(1), of "''b''" "''a''" "''a1''" "''Hello!''"
      plainUserInput "''greeting''" "''Why?''" sampleParse None slowNet]
    chatStore_facts afterAnswer_eval(3)
  by (simp add: afterAnswer_def)

text \<open>
  C5, as stated, fails: \<open>addMessage\<close> stores a user message that is marked as
  streaming, and \<open>updateReasoningContent\<close> sets the reasoning text of a user message;
  both start from a store that satisfies the invariant.
\<close>

theorem roleInvariant_counterexample:
  "roleInvariant chatStore
   \<and> \<not> roleInvariant (snd (addMessage ''a'' streamingUserInput chatStore))
   \<and> \<not> roleInvariant (updateReasoningContent ''a'' ''u1'' ''thought'' chatStore)"
  using chatStore_facts(1) chatStore_broken(1,2) by (intro conjI)

text \<open>
  C2 fails on the code. When the dynamic import of the service rejects, after the
  placeholder has been appended, the \<open>catch\<close> of \<open>sendMessage\<close> resets the two flags
  and logs to the console, and that is all: the placeholder stays in the conversation
  with empty content and \<open>isStreaming = true\<close>, and no diagnostic text is written
  into the conversation.
\<close>

theorem sendMessage_import_rejected:
  "isLoading afterImportFailure = False
   \<and> isStreaming afterImportFailure = False
   \<and> errorLog afterImportFailure = [SendFailed importError]
   \<and> map (\<lambda>m. (m_id m, m_role m, m_content m, m_isStreaming m))
        (concat (map c_messages (conversations afterImportFailure)))
       = [(''u1'', User, ''Hello'', None), (''a1'', Assistant, ''Hi there'', Some False),
          (''1000-r'', User, ''Why?'', None), (''1003-rr'', Assistant, [], Some True)]"
  using afterImportFailure_eval by (intro conjI)

end
